theory Spec2Isabelle
  imports Complex_Main "HOL-Library.AList"
begin

section \<open>Compartment trees of NEAT: data model\<close>

text \<open>
  The development embeds \<^verbatim>\<open>neat/trees/compartmenttree.py\<close> and the part of
  \<^verbatim>\<open>neat/channels/ionchannels.py\<close> it calls. Python floats and NumPy float arrays are
  modelled by \<^typ>\<open>real\<close>, complex frequencies and admittances by \<^typ>\<open>complex\<close>: all
  statements are about exact arithmetic, rounding is not modelled. Where NumPy divides
  by zero without raising (the result is \<^verbatim>\<open>inf\<close> or \<^verbatim>\<open>nan\<close>), the model's value is that of
  division in HOL and means nothing; theorems that depend on such a value exclude the
  case by a hypothesis. A Python \<^verbatim>\<open>dict\<close> is an
  association list read with \<^const>\<open>map_of\<close> and written with \<^const>\<open>AList.update\<close>
  (an existing key keeps its place, a new key goes to the end, as in Python).
\<close>

datatype error =
    KeyError | NameError | AttributeError | IOError | ValueError | IndexError
  | ZeroDivisionError | TypeError | RuntimeError

subsection \<open>Ion channels (\<^verbatim>\<open>ionchannels.IonChannel\<close>)\<close>

text \<open>
  A channel object holds the functions that \<^verbatim>\<open>IonChannel.__init__\<close> obtains by
  \<^verbatim>\<open>sympy.lambdify\<close>: the asymptotic state variables \<^verbatim>\<open>f_varinf\<close>, the open probability
  \<^verbatim>\<open>f_p_open\<close> and the derivatives \<^verbatim>\<open>dp_dx\<close>, \<^verbatim>\<open>df_dv\<close>, \<^verbatim>\<open>df_dx\<close>. The two-dimensional
  array of state variables is flattened in row-major order, the order of
  \<^verbatim>\<open>np.ndenumerate\<close>. An expansion point is \<^verbatim>\<open>None\<close> or such an array.
\<close>

record channel =
  f_varinf :: "(real \<Rightarrow> real) list"
  f_p_open :: "real \<Rightarrow> real list \<Rightarrow> real"
  dp_dx :: "real \<Rightarrow> real list \<Rightarrow> real list"
  df_dv :: "real \<Rightarrow> real list \<Rightarrow> real list"
  df_dx :: "real \<Rightarrow> real list \<Rightarrow> real list"

definition statevar_args :: "channel \<Rightarrow> real \<Rightarrow> real list option \<Rightarrow> real list" where
  "statevar_args chan v statevars =
     (case statevars of
        None \<Rightarrow> map (\<lambda>f. f v) (f_varinf chan)
      | Some sv \<Rightarrow> sv)"

definition computePOpen :: "channel \<Rightarrow> real \<Rightarrow> real list option \<Rightarrow> real" where
  "computePOpen chan v statevars = f_p_open chan v (statevar_args chan v statevars)"

definition computeDerivatives ::
  "channel \<Rightarrow> real \<Rightarrow> real list option \<Rightarrow> real list \<times> real list \<times> real list" where
  "computeDerivatives chan v statevars =
     (let args = statevar_args chan v statevars
      in (dp_dx chan v args, df_dv chan v args, df_dx chan v args))"

text \<open>
  \<^verbatim>\<open>computeLinear\<close> at one frequency: the loop over the state variables adds
  \<^verbatim>\<open>dp_dx_ * df_dv_ / (freqs - df_dx_)\<close>, the two rates converted to 1/s.
\<close>

fun computeLinear_loop :: "complex \<Rightarrow> real list \<Rightarrow> real list \<Rightarrow> real list \<Rightarrow> complex \<Rightarrow> complex" where
  "computeLinear_loop freq (p # ps) (a # as) (b # bs) lin_f =
     computeLinear_loop freq ps as bs
       (lin_f + of_real p * of_real (a * 1000) / (freq - of_real (b * 1000)))"
| "computeLinear_loop freq _ _ _ lin_f = lin_f"

definition computeLinear :: "channel \<Rightarrow> real \<Rightarrow> complex \<Rightarrow> real list option \<Rightarrow> complex" where
  "computeLinear chan v freq statevars =
     (case computeDerivatives chan v statevars of
        (dp_dx_arr, df_dv_arr, df_dx_arr) \<Rightarrow>
          computeLinear_loop freq dp_dx_arr df_dv_arr df_dx_arr 0)"

definition computeLinSum :: "channel \<Rightarrow> real \<Rightarrow> complex \<Rightarrow> real \<Rightarrow> real list option \<Rightarrow> complex" where
  "computeLinSum chan v freq e_rev statevars =
     of_real (e_rev - v) * computeLinear chan v freq statevars
       - of_real (computePOpen chan v statevars)"

subsection \<open>The channel collection\<close>

text \<open>
  The module \<^verbatim>\<open>neat.channels.channelcollection\<close> is taken as a parameter: the classes that
  \<^verbatim>\<open>eval('channelcollection.' + channel_name + '()')\<close> can instantiate, and its table
  \<^verbatim>\<open>E_REV_DICT\<close> of default reversal potentials. A name that is no class of the module
  makes \<^verbatim>\<open>eval\<close> raise \<^verbatim>\<open>AttributeError\<close>.
\<close>

record channelcollection =
  channel_class :: "string \<Rightarrow> channel option"
  E_REV_DICT :: "string \<Rightarrow> real option"

definition eval_channel :: "channelcollection \<Rightarrow> string \<Rightarrow> error + channel" where
  "eval_channel cc channel_name =
     (case channel_class cc channel_name of
        None \<Rightarrow> Inl AttributeError
      | Some chan \<Rightarrow> Inr chan)"

subsection \<open>Compartment nodes (\<^verbatim>\<open>CompartmentNode\<close>)\<close>

text \<open>
  \<^verbatim>\<open>currents\<close> maps a channel name to the pair \<^verbatim>\<open>[g, e]\<close>, \<^verbatim>\<open>expansion_points\<close> a channel
  name to \<^verbatim>\<open>None\<close> or a state-variable array, \<^verbatim>\<open>concmechs\<close> an ion to a concentration
  mechanism with its \<^verbatim>\<open>gamma\<close> and \<^verbatim>\<open>tau\<close>. \<^verbatim>\<open>parent_node\<close> holds the \<^verbatim>\<open>index\<close> of the
  parent node, \<^verbatim>\<open>None\<close> at the root: the code reads the parent only through
  \<^verbatim>\<open>node.parent_node.index\<close>.
\<close>

record concmech =
  gamma :: real
  tau :: real

record CompartmentNode =
  index :: int
  parent_node :: "int option"
  loc_ind :: int
  ca :: real
  g_c :: real
  e_eq :: real
  currents :: "(string \<times> real \<times> real) list"
  concmechs :: "(string \<times> concmech) list"
  expansion_points :: "(string \<times> real list option) list"

type_synonym channel_storage = "string \<Rightarrow> channel option"

text \<open>
  \<^verbatim>\<open>addCurrent\<close> compares its argument with the literal \<^verbatim>\<open>'L'\<close> by identity
  (\<^verbatim>\<open>channel_name is not 'L'\<close>), so the argument is a string object: either the very
  object of that literal, or some other string object, whose characters may still be
  \<^verbatim>\<open>L\<close> (as for \<^verbatim>\<open>chr(76)\<close> or \<^verbatim>\<open>'L,Na'.split(',')[0]\<close>). Dictionaries and \<^verbatim>\<open>eval\<close> see the
  characters only.
\<close>

datatype str_object = Literal_L | Str string

fun chars :: "str_object \<Rightarrow> string" where
  "chars Literal_L = ''L''"
| "chars (Str s) = s"

text \<open>
  \<^verbatim>\<open>CompartmentNode.addCurrent\<close>. The node and the storage dictionary are mutated in place,
  so the model returns both together with the exception raised, if any: what was written
  before a \<^verbatim>\<open>raise\<close> stays written.
\<close>

definition addCurrent ::
  "channelcollection \<Rightarrow> str_object \<Rightarrow> real option \<Rightarrow> CompartmentNode \<Rightarrow> channel_storage option
     \<Rightarrow> error option \<times> CompartmentNode \<times> channel_storage option" where
  "addCurrent cc channel_name e_rev node storage =
     (if channel_name \<noteq> Literal_L then
        (case (case e_rev of
                 None \<Rightarrow> (case E_REV_DICT cc (chars channel_name) of
                             None \<Rightarrow> Inl KeyError
                           | Some e \<Rightarrow> Inr e)
               | Some e \<Rightarrow> Inr e) of
           Inl err \<Rightarrow> (Some err, node, storage)
         | Inr e \<Rightarrow>
             (let node1 = node\<lparr>currents :=
                            AList.update (chars channel_name) (0, e) (currents node)\<rparr>;
                  node2 = node1\<lparr>expansion_points :=
                            AList.update (chars channel_name) None (expansion_points node1)\<rparr>
              in (case storage of
                    None \<Rightarrow> (None, node2, None)
                  | Some st \<Rightarrow>
                      (if st (chars channel_name) = None then
                         (case eval_channel cc (chars channel_name) of
                            Inl err \<Rightarrow> (Some err, node1, Some st)
                          | Inr chan \<Rightarrow>
                              (None, node2, Some (st(chars channel_name \<mapsto> chan))))
                       else (None, node2, Some st)))))
      else (None, node, storage))"

text \<open>
  \<^verbatim>\<open>getCurrent\<close>: the stored channel object, and a new instance when the storage is
  \<^verbatim>\<open>None\<close> (\<^verbatim>\<open>TypeError\<close>) or lacks the name (\<^verbatim>\<open>KeyError\<close>).
\<close>

definition getCurrent :: "channelcollection \<Rightarrow> string \<Rightarrow> channel_storage option \<Rightarrow> error + channel" where
  "getCurrent cc channel_name storage =
     (case storage of
        None \<Rightarrow> eval_channel cc channel_name
      | Some st \<Rightarrow>
          (case st channel_name of
             None \<Rightarrow> eval_channel cc channel_name
           | Some chan \<Rightarrow> Inr chan))"

text \<open>
  A float or complex number, or a one-dimensional array of them: the frequencies passed
  to a node and the conductance terms it returns.
\<close>

datatype 'a numpy = Scalar 'a | Array "'a list"

text \<open>
  The keys of a dictionary, and the iteration \<^verbatim>\<open>set(channel_names) - set('L')\<close>, for
  which the model takes the order of first occurrence in the list.
\<close>

definition dict_keys :: "('k \<times> 'v) list \<Rightarrow> 'k list" where
  "dict_keys al = map fst al"

definition set_minus_L :: "string list \<Rightarrow> string list" where
  "set_minus_L names = rev (remdups (rev (filter (\<lambda>name. name \<noteq> ''L'') names)))"

type_synonym cond_terms = "(string \<times> complex numpy) list"

text \<open>
  The loop of \<^verbatim>\<open>calcMembraneConductanceTerms\<close> runs over names other than \<^verbatim>\<open>'L'\<close>; such
  a name is never the object of the literal, so it reaches \<^verbatim>\<open>addCurrent\<close> as \<open>Str\<close>.
\<close>

fun calcMembraneConductanceTerms_loop ::
  "channelcollection \<Rightarrow> complex numpy \<Rightarrow> string list \<Rightarrow> cond_terms \<Rightarrow> CompartmentNode
     \<Rightarrow> channel_storage option \<Rightarrow> (error + cond_terms) \<times> CompartmentNode \<times> channel_storage option" where
  "calcMembraneConductanceTerms_loop cc freqs [] terms node storage = (Inr terms, node, storage)"
| "calcMembraneConductanceTerms_loop cc freqs (channel_name # rest) terms node storage =
     (case (if map_of (currents node) channel_name = None
            then addCurrent cc (Str channel_name) None node storage
            else (None, node, storage)) of
        (Some err, node1, storage1) \<Rightarrow> (Inl err, node1, storage1)
      | (None, node1, storage1) \<Rightarrow>
          (case map_of (currents node1) channel_name of
             None \<Rightarrow> (Inl KeyError, node1, storage1)
           | Some (g, e) \<Rightarrow>
               (case getCurrent cc channel_name storage1 of
                  Inl err \<Rightarrow> (Inl err, node1, storage1)
                | Inr chan \<Rightarrow>
                    (case map_of (expansion_points node1) channel_name of
                       None \<Rightarrow> (Inl KeyError, node1, storage1)
                     | Some sv \<Rightarrow>
                         calcMembraneConductanceTerms_loop cc freqs rest
                           (AList.update channel_name
                              (map_numpy (\<lambda>freq. - computeLinSum chan (e_eq node1) freq e sv) freqs)
                              terms)
                           node1 storage1))))"

definition calcMembraneConductanceTerms ::
  "channelcollection \<Rightarrow> CompartmentNode \<Rightarrow> complex numpy \<Rightarrow> string list option
     \<Rightarrow> channel_storage option \<Rightarrow> (error + cond_terms) \<times> CompartmentNode \<times> channel_storage option" where
  "calcMembraneConductanceTerms cc node freqs channel_names storage =
     (let names = (case channel_names of None \<Rightarrow> dict_keys (currents node) | Some ns \<Rightarrow> ns);
          terms = (if ''L'' \<in> set names then [(''L'', Scalar 1)] else [])
      in calcMembraneConductanceTerms_loop cc freqs (set_minus_L names) terms node storage)"

text \<open>\<^verbatim>\<open>getGTot\<close> and \<^verbatim>\<open>getITot\<close>; \<^verbatim>\<open>p_open_channels\<close> is a dictionary of open probabilities.\<close>

fun getGTot_loop ::
  "channelcollection \<Rightarrow> CompartmentNode \<Rightarrow> real \<Rightarrow> channel_storage option \<Rightarrow> string list \<Rightarrow> real
     \<Rightarrow> error + real" where
  "getGTot_loop cc node v storage [] g_tot = Inr g_tot"
| "getGTot_loop cc node v storage (channel_name # rest) g_tot =
     (if channel_name \<noteq> ''L'' then
        (case map_of (currents node) channel_name of
           None \<Rightarrow> Inl KeyError
         | Some (g, e) \<Rightarrow>
             (case getCurrent cc channel_name storage of
                Inl err \<Rightarrow> Inl err
              | Inr chan \<Rightarrow>
                  (case map_of (expansion_points node) channel_name of
                     None \<Rightarrow> Inl KeyError
                   | Some sv \<Rightarrow>
                       getGTot_loop cc node v storage rest (g_tot + g * computePOpen chan v sv))))
      else getGTot_loop cc node v storage rest g_tot)"

definition getGTot ::
  "channelcollection \<Rightarrow> CompartmentNode \<Rightarrow> real option \<Rightarrow> string list option
     \<Rightarrow> channel_storage option \<Rightarrow> error + real" where
  "getGTot cc node v channel_names storage =
     (let names = (case channel_names of None \<Rightarrow> dict_keys (currents node) | Some ns \<Rightarrow> ns)
      in case (if ''L'' \<in> set names
               then (case map_of (currents node) ''L'' of
                       None \<Rightarrow> Inl KeyError
                     | Some (g_l, e_l) \<Rightarrow> Inr g_l)
               else Inr 0) of
           Inl err \<Rightarrow> Inl err
         | Inr g_tot \<Rightarrow>
             getGTot_loop cc node (case v of None \<Rightarrow> e_eq node | Some v' \<Rightarrow> v') storage names g_tot)"

fun getITot_loop ::
  "channelcollection \<Rightarrow> CompartmentNode \<Rightarrow> real \<Rightarrow> channel_storage option \<Rightarrow> (string \<Rightarrow> real option)
     \<Rightarrow> string list \<Rightarrow> real \<Rightarrow> error + real" where
  "getITot_loop cc node v storage p_open_channels [] i_tot = Inr i_tot"
| "getITot_loop cc node v storage p_open_channels (channel_name # rest) i_tot =
     (if channel_name \<noteq> ''L'' then
        (case map_of (currents node) channel_name of
           None \<Rightarrow> Inl KeyError
         | Some (g, e) \<Rightarrow>
             (case p_open_channels channel_name of
                None \<Rightarrow>
                  (case getCurrent cc channel_name storage of
                     Inl err \<Rightarrow> Inl err
                   | Inr chan \<Rightarrow>
                       (case map_of (expansion_points node) channel_name of
                          None \<Rightarrow> Inl KeyError
                        | Some sv \<Rightarrow>
                            getITot_loop cc node v storage p_open_channels rest
                              (i_tot + g * computePOpen chan v sv * (v - e))))
              | Some p_open \<Rightarrow>
                  getITot_loop cc node v storage p_open_channels rest
                    (i_tot + g * p_open * (v - e))))
      else getITot_loop cc node v storage p_open_channels rest i_tot)"

definition getITot ::
  "channelcollection \<Rightarrow> CompartmentNode \<Rightarrow> real option \<Rightarrow> string list option
     \<Rightarrow> channel_storage option \<Rightarrow> (string \<Rightarrow> real option) \<Rightarrow> error + real" where
  "getITot cc node v channel_names storage p_open_channels =
     (let names = (case channel_names of None \<Rightarrow> dict_keys (currents node) | Some ns \<Rightarrow> ns);
          v' = (case v of None \<Rightarrow> e_eq node | Some x \<Rightarrow> x)
      in case (if ''L'' \<in> set names
               then (case map_of (currents node) ''L'' of
                       None \<Rightarrow> Inl KeyError
                     | Some (g_l, e_l) \<Rightarrow> Inr (g_l * (v' - e_l)))
               else Inr 0) of
           Inl err \<Rightarrow> Inl err
         | Inr i_tot \<Rightarrow> getITot_loop cc node v' storage p_open_channels names i_tot)"

text \<open>
  \<^verbatim>\<open>CompartmentNode.fitEL\<close>. The open probability is \<^verbatim>\<open>computePOpen(self.e_eq)\<close>, without
  state variables. With a storage the channel is \<^verbatim>\<open>channel_storage[channel_name]\<close>, which
  raises \<^verbatim>\<open>KeyError\<close> for a missing name. The leak conductance is a Python float, whose
  division by zero raises. Nothing is written before the last statement.
\<close>

fun fitEL_loop ::
  "channelcollection \<Rightarrow> CompartmentNode \<Rightarrow> channel_storage option \<Rightarrow> string list \<Rightarrow> real \<Rightarrow> error + real" where
  "fitEL_loop cc node storage [] i_eq = Inr i_eq"
| "fitEL_loop cc node storage (channel_name # rest) i_eq =
     (case map_of (currents node) channel_name of
        None \<Rightarrow> Inl KeyError
      | Some (g, e) \<Rightarrow>
          (case (case storage of
                   Some st \<Rightarrow> (case st channel_name of None \<Rightarrow> Inl KeyError | Some chan \<Rightarrow> Inr chan)
                 | None \<Rightarrow> eval_channel cc channel_name) of
             Inl err \<Rightarrow> Inl err
           | Inr chan \<Rightarrow>
               (let p_open = computePOpen chan (e_eq node) None;
                    i_chan = g * p_open * (e - e_eq node)
                in fitEL_loop cc node storage rest (i_eq + i_chan))))"

definition fitEL :: "channelcollection \<Rightarrow> CompartmentNode \<Rightarrow> channel_storage option \<Rightarrow> error + CompartmentNode" where
  "fitEL cc node storage =
     (case fitEL_loop cc node storage (set_minus_L (dict_keys (currents node))) 0 of
        Inl err \<Rightarrow> Inl err
      | Inr i_eq \<Rightarrow>
          (case map_of (currents node) ''L'' of
             None \<Rightarrow> Inl KeyError
           | Some (g_l, e_l_old) \<Rightarrow>
               (if g_l = 0 then Inl ZeroDivisionError
                else Inr (node\<lparr>currents :=
                            AList.update ''L'' (g_l, e_eq node - i_eq / g_l) (currents node)\<rparr>))))"

subsection \<open>The tree and its fit accumulator (\<^verbatim>\<open>CompartmentTree\<close>)\<close>

text \<open>
  The feature matrices and target vectors that a fit stores are NumPy arrays, which
  \<^verbatim>\<open>runFit\<close> later scales in place. They are therefore objects with an identity: the
  accumulator holds addresses, and a heap gives the array at each address. A matrix is
  the list of its rows.
\<close>

datatype ndarray = Arr1 "real list" | Arr2 "real list list"

type_synonym addr = nat

fun len :: "ndarray \<Rightarrow> nat" where
  "len (Arr1 xs) = length xs"
| "len (Arr2 rows) = length rows"

fun imul :: "ndarray \<Rightarrow> real \<Rightarrow> ndarray" where
  "imul (Arr1 xs) k = Arr1 (map (\<lambda>x. x * k) xs)"
| "imul (Arr2 rows) k = Arr2 (map (map (\<lambda>x. x * k)) rows)"

definition ncols :: "real list list \<Rightarrow> nat" where
  "ncols rows = (case rows of [] \<Rightarrow> 0 | r # _ \<Rightarrow> length r)"

text \<open>
  \<^verbatim>\<open>np.concatenate\<close> along the first axis: the arrays must have the same number of
  dimensions and, for matrices, the same number of columns.
\<close>

fun concatenate2 :: "ndarray \<Rightarrow> ndarray \<Rightarrow> error + ndarray" where
  "concatenate2 (Arr1 xs) (Arr1 ys) = Inr (Arr1 (xs @ ys))"
| "concatenate2 (Arr2 xs) (Arr2 ys) =
     (if ncols xs = ncols ys then Inr (Arr2 (xs @ ys)) else Inl ValueError)"
| "concatenate2 _ _ = Inl ValueError"

fun concatenate :: "ndarray list \<Rightarrow> error + ndarray" where
  "concatenate [] = Inl ValueError"
| "concatenate [a] = Inr a"
| "concatenate (a # b # rest) =
     (case concatenate (b # rest) of
        Inl err \<Rightarrow> Inl err
      | Inr r \<Rightarrow> concatenate2 a r)"

record fit_data =
  mats_feature :: "addr list"
  vecs_target :: "addr list"
  weights_fit :: "real list"
  channel_names :: "string list"
  ion :: string
  c_key :: bool

record CompartmentTree =
  nodes :: "CompartmentNode list"
  channel_storage :: channel_storage
  fit_data :: fit_data

text \<open>
  What a fit call can change: the tree, the arrays on the heap, and the warnings issued
  so far (\<^verbatim>\<open>warnings.warn\<close> does not interrupt the call).
\<close>

record state =
  tree :: CompartmentTree
  heap :: "addr \<Rightarrow> ndarray"
  warnings :: "string list"

definition idle_fit_data :: fit_data where
  "idle_fit_data =
     \<lparr>mats_feature = [], vecs_target = [], weights_fit = [],
      channel_names = [], ion = [], c_key = False\<rparr>"

definition resetFitData :: "CompartmentTree \<Rightarrow> CompartmentTree" where
  "resetFitData t = t\<lparr>fit_data := idle_fit_data\<rparr>"

text \<open>
  Writing a solution vector back to the nodes. In
  \<^verbatim>\<open>node.currents[channel_name][0] = g_vec[kk]\<close> the right-hand side is evaluated first,
  so a vector that is too short raises \<^verbatim>\<open>IndexError\<close> before a missing channel raises
  \<^verbatim>\<open>KeyError\<close>. Nodes already written stay written.
\<close>

fun toTreeGM_node ::
  "real list \<Rightarrow> string list \<Rightarrow> nat \<Rightarrow> CompartmentNode \<Rightarrow> error option \<times> CompartmentNode \<times> nat" where
  "toTreeGM_node g_vec [] kk node = (None, node, kk)"
| "toTreeGM_node g_vec (channel_name # rest) kk node =
     (if length g_vec \<le> kk then (Some IndexError, node, kk)
      else (case map_of (currents node) channel_name of
              None \<Rightarrow> (Some KeyError, node, kk)
            | Some (g, e) \<Rightarrow>
                toTreeGM_node g_vec rest (kk + 1)
                  (node\<lparr>currents := AList.update channel_name (g_vec ! kk, e) (currents node)\<rparr>)))"

fun toTreeGM_loop ::
  "real list \<Rightarrow> string list \<Rightarrow> nat \<Rightarrow> CompartmentNode list \<Rightarrow> error option \<times> CompartmentNode list" where
  "toTreeGM_loop g_vec names kk [] = (None, [])"
| "toTreeGM_loop g_vec names kk (node # rest) =
     (case toTreeGM_node g_vec names kk node of
        (Some err, node', _) \<Rightarrow> (Some err, node' # rest)
      | (None, node', kk') \<Rightarrow>
          (case toTreeGM_loop g_vec names kk' rest of
             (err, rest') \<Rightarrow> (err, node' # rest')))"

definition toTreeGM :: "real list \<Rightarrow> string list \<Rightarrow> CompartmentNode list \<Rightarrow> error option \<times> CompartmentNode list" where
  "toTreeGM g_vec names ns = toTreeGM_loop g_vec names 0 ns"

fun toTreeConc_loop ::
  "real list \<Rightarrow> string \<Rightarrow> nat \<Rightarrow> CompartmentNode list \<Rightarrow> error option \<times> CompartmentNode list" where
  "toTreeConc_loop c_vec ion_name ii [] = (None, [])"
| "toTreeConc_loop c_vec ion_name ii (node # rest) =
     (if length c_vec \<le> ii then (Some IndexError, node # rest)
      else (case map_of (concmechs node) ion_name of
              None \<Rightarrow> (Some KeyError, node # rest)
            | Some mech \<Rightarrow>
                (case toTreeConc_loop c_vec ion_name (ii + 1) rest of
                   (err, rest') \<Rightarrow>
                     (err, node\<lparr>concmechs :=
                              AList.update ion_name (mech\<lparr>gamma := c_vec ! ii\<rparr>) (concmechs node)\<rparr>
                           # rest'))))"

definition toTreeConc :: "real list \<Rightarrow> string \<Rightarrow> CompartmentNode list \<Rightarrow> error option \<times> CompartmentNode list" where
  "toTreeConc c_vec ion_name ns = toTreeConc_loop c_vec ion_name 0 ns"

fun toTreeC_loop :: "real list \<Rightarrow> nat \<Rightarrow> CompartmentNode list \<Rightarrow> error option \<times> CompartmentNode list" where
  "toTreeC_loop c_vec ii [] = (None, [])"
| "toTreeC_loop c_vec ii (node # rest) =
     (if length c_vec \<le> ii then (Some IndexError, node # rest)
      else (case toTreeC_loop c_vec (ii + 1) rest of
              (err, rest') \<Rightarrow> (err, node\<lparr>ca := c_vec ! ii\<rparr> # rest')))"

definition toTreeC :: "real list \<Rightarrow> CompartmentNode list \<Rightarrow> error option \<times> CompartmentNode list" where
  "toTreeC c_vec ns = toTreeC_loop c_vec 0 ns"

text \<open>
  \<^verbatim>\<open>scipy.optimize.nnls\<close> is a parameter of the model: a function from a matrix and a
  vector to a solution vector or an exception. It wants a two-dimensional and a
  one-dimensional array.
\<close>

type_synonym solver = "real list list \<Rightarrow> real list \<Rightarrow> error + real list"

fun so_nnls :: "solver \<Rightarrow> ndarray \<Rightarrow> ndarray \<Rightarrow> error + real list" where
  "so_nnls nnls (Arr2 rows) (Arr1 ys) = nnls rows ys"
| "so_nnls nnls _ _ = Inl ValueError"

text \<open>The keyword arguments \<^verbatim>\<open>channel_names\<close> and \<^verbatim>\<open>ion\<close>, each present or absent.\<close>

record kwargs =
  kw_channel_names :: "string list option"
  kw_ion :: "string option"

text \<open>
  The branch \<^verbatim>\<open>action == 'fit'\<close> of \<^verbatim>\<open>_fitResAction\<close>: it reads the two arrays, solves,
  and writes the solution to the tree. It is a function of the arrays' contents, so that
  \<^verbatim>\<open>runFit\<close> can pass it the arrays it has just built.
\<close>

definition fit_branch ::
  "solver \<Rightarrow> ndarray \<Rightarrow> ndarray \<Rightarrow> bool \<Rightarrow> kwargs \<Rightarrow> CompartmentTree \<Rightarrow> error option \<times> CompartmentTree" where
  "fit_branch nnls mat_feature vec_target capacitance kw t =
     (case so_nnls nnls mat_feature vec_target of
        Inl err \<Rightarrow> (Some err, t)
      | Inr vec_res \<Rightarrow>
          (case kw_channel_names kw of
             Some names \<Rightarrow>
               (case toTreeGM vec_res names (nodes t) of (err, ns) \<Rightarrow> (err, t\<lparr>nodes := ns\<rparr>))
           | None \<Rightarrow>
               (case kw_ion kw of
                  Some ion_name \<Rightarrow>
                    (case toTreeConc vec_res ion_name (nodes t) of
                       (err, ns) \<Rightarrow> (err, t\<lparr>nodes := ns\<rparr>))
                | None \<Rightarrow>
                    (if capacitance then
                       (case toTreeC vec_res (nodes t) of (err, ns) \<Rightarrow> (err, t\<lparr>nodes := ns\<rparr>))
                     else (Some IOError, t)))))"

text \<open>
  The family checks of the branch \<^verbatim>\<open>action == 'store'\<close>. Each \<^verbatim>\<open>assert\<close> that fails is
  turned into \<^verbatim>\<open>IOError\<close> by its handler; the last handler builds its message from
  \<^verbatim>\<open>kwargs[ion]\<close>, where \<^verbatim>\<open>ion\<close> is no variable, and so raises \<^verbatim>\<open>NameError\<close>.
\<close>

definition store_family :: "bool \<Rightarrow> kwargs \<Rightarrow> fit_data \<Rightarrow> error + fit_data" where
  "store_family capacitance kw fd =
     (case kw_channel_names kw of
        Some names \<Rightarrow>
          (if ion fd \<noteq> [] then Inl IOError
           else if length (channel_names fd) = 0 then Inr (fd\<lparr>channel_names := names\<rparr>)
           else if channel_names fd = names then Inr fd
           else Inl IOError)
      | None \<Rightarrow>
          (case kw_ion kw of
             Some ion_name \<Rightarrow>
               (if length (channel_names fd) \<noteq> 0 then Inl IOError
                else if ion fd = [] then Inr (fd\<lparr>ion := ion_name\<rparr>)
                else if ion fd = ion_name then Inr fd
                else Inl NameError)
           | None \<Rightarrow>
               (if capacitance then Inr (fd\<lparr>c_key := True\<rparr>) else Inr fd)))"

definition fitResAction ::
  "solver \<Rightarrow> string \<Rightarrow> addr \<Rightarrow> addr \<Rightarrow> real \<Rightarrow> bool \<Rightarrow> kwargs \<Rightarrow> state
     \<Rightarrow> (error + (addr \<times> addr) option) \<times> state" where
  "fitResAction nnls action mat_feature vec_target weight capacitance kw s =
     (if action = ''fit'' then
        (case fit_branch nnls (heap s mat_feature) (heap s vec_target) capacitance kw (tree s) of
           (Some err, t) \<Rightarrow> (Inl err, s\<lparr>tree := t\<rparr>)
         | (None, t) \<Rightarrow> (Inr None, s\<lparr>tree := t\<rparr>))
      else if action = ''return'' then (Inr (Some (mat_feature, vec_target)), s)
      else if action = ''store'' then
        (case store_family capacitance kw (fit_data (tree s)) of
           Inl err \<Rightarrow> (Inl err, s)
         | Inr fd \<Rightarrow>
             (Inr None,
              s\<lparr>tree := (tree s)\<lparr>fit_data :=
                   fd\<lparr>mats_feature := mats_feature fd @ [mat_feature],
                      vecs_target := vecs_target fd @ [vec_target],
                      weights_fit := weights_fit fd @ [weight]\<rparr>\<rparr>\<rparr>))
      else (Inl IOError, s))"

text \<open>
  \<^verbatim>\<open>runFit\<close>, first loop: each stored pair is multiplied in place by \<^verbatim>\<open>w_f / nn\<close>, with
  \<^verbatim>\<open>nn = len(v_t)\<close>; the division of a Python float by the integer 0 raises.
\<close>

fun apply_weights :: "(addr \<times> addr \<times> real) list \<Rightarrow> (addr \<Rightarrow> ndarray) \<Rightarrow> error option \<times> (addr \<Rightarrow> ndarray)" where
  "apply_weights [] h = (None, h)"
| "apply_weights ((m_f, v_t, w_f) # rest) h =
     (let nn = len (h v_t)
      in if nn = 0 then (Some ZeroDivisionError, h)
         else (let h1 = h(m_f := imul (h m_f) (w_f / real nn));
                   h2 = h1(v_t := imul (h1 v_t) (w_f / real nn))
               in apply_weights rest h2))"

definition no_fit_warning :: string where
  "no_fit_warning = ''No fit matrices are stored, no fit has been performed''"

text \<open>
  Second step of \<^verbatim>\<open>runFit\<close>: the scaled arrays are concatenated. The result is the
  least-squares problem handed to the solver, or the exception raised on the way.
\<close>

definition assemble ::
  "fit_data \<Rightarrow> (addr \<Rightarrow> ndarray) \<Rightarrow> (error + ndarray \<times> ndarray) \<times> (addr \<Rightarrow> ndarray)" where
  "assemble fd h0 =
     (case apply_weights (zip (mats_feature fd) (zip (vecs_target fd) (weights_fit fd))) h0 of
        (Some err, h) \<Rightarrow> (Inl err, h)
      | (None, h) \<Rightarrow>
          (case concatenate (map h (mats_feature fd)) of
             Inl err \<Rightarrow> (Inl err, h)
           | Inr mat_feature \<Rightarrow>
               (case concatenate (map h (vecs_target fd)) of
                  Inl err \<Rightarrow> (Inl err, h)
                | Inr vec_target \<Rightarrow> (Inr (mat_feature, vec_target), h))))"

text \<open>Third step: the fit of the family that the accumulator's tags name, if any.\<close>

definition do_the_fit ::
  "solver \<Rightarrow> fit_data \<Rightarrow> ndarray \<Rightarrow> ndarray \<Rightarrow> CompartmentTree \<Rightarrow> error option \<times> CompartmentTree" where
  "do_the_fit nnls fd mat_feature vec_target t =
     (if length (channel_names fd) > 0 then
        fit_branch nnls mat_feature vec_target False
          \<lparr>kw_channel_names = Some (channel_names fd), kw_ion = None\<rparr> t
      else if ion fd \<noteq> [] then
        fit_branch nnls mat_feature vec_target False
          \<lparr>kw_channel_names = None, kw_ion = Some (ion fd)\<rparr> t
      else if c_key fd then
        fit_branch nnls mat_feature vec_target True
          \<lparr>kw_channel_names = None, kw_ion = None\<rparr> t
      else (None, t))"

definition runFit :: "solver \<Rightarrow> state \<Rightarrow> error option \<times> state" where
  "runFit nnls s =
     (let fd = fit_data (tree s)
      in if length (mats_feature fd) > 0 then
           (case assemble fd (heap s) of
              (Inl err, h) \<Rightarrow> (Some err, s\<lparr>heap := h\<rparr>)
            | (Inr (mat_feature, vec_target), h) \<Rightarrow>
                (case do_the_fit nnls fd mat_feature vec_target (tree s) of
                   (Some err, t) \<Rightarrow> (Some err, s\<lparr>tree := t, heap := h\<rparr>)
                 | (None, t) \<Rightarrow> (None, s\<lparr>tree := resetFitData t, heap := h\<rparr>)))
         else (None, s\<lparr>warnings := warnings s @ [no_fit_warning]\<rparr>))"

subsection \<open>Tree indexing and location indexing\<close>

text \<open>
  Indexing a NumPy array: an index from \<open>-n\<close> to \<open>n - 1\<close> is accepted, a negative one
  counts from the end, any other raises \<^verbatim>\<open>IndexError\<close>. Indexing with an integer array
  (\<^verbatim>\<open>mat[index_arr]\<close>) picks the entries at these indices, in their order.
\<close>

definition np_index :: "nat \<Rightarrow> int \<Rightarrow> error + nat" where
  "np_index n i =
     (if 0 \<le> i \<and> i < int n then Inr (nat i)
      else if - int n \<le> i \<and> i < 0 then Inr (nat (i + int n))
      else Inl IndexError)"

fun map_raise :: "('a \<Rightarrow> error + 'b) \<Rightarrow> 'a list \<Rightarrow> error + 'b list" where
  "map_raise f [] = Inr []"
| "map_raise f (x # xs) =
     (case f x of
        Inl err \<Rightarrow> Inl err
      | Inr y \<Rightarrow> (case map_raise f xs of Inl err \<Rightarrow> Inl err | Inr ys \<Rightarrow> Inr (y # ys)))"

definition fancy :: "'a list \<Rightarrow> int list \<Rightarrow> error + 'a list" where
  "fancy xs index_arr =
     map_raise (\<lambda>i. case np_index (length xs) i of Inl err \<Rightarrow> Inl err | Inr k \<Rightarrow> Inr (xs ! k))
       index_arr"

text \<open>
  The argument of the two permutations: an array of one, two or three dimensions, the
  last as the list of its matrices (one for each frequency).
\<close>

datatype 'a tensor = Vec "'a list" | Mat "'a list list" | Stack "'a list list list"

text \<open>
  \<^verbatim>\<open>mat[index_arr]\<close>, \<^verbatim>\<open>mat[index_arr,:][:,index_arr]\<close> and
  \<^verbatim>\<open>mat[:,index_arr,:][:,:,index_arr]\<close>, the common body of \<^verbatim>\<open>_permuteToTree\<close> and
  \<^verbatim>\<open>_permuteToLocs\<close>.
\<close>

fun permute :: "int list \<Rightarrow> 'a tensor \<Rightarrow> error + 'a tensor" where
  "permute index_arr (Vec xs) =
     (case fancy xs index_arr of Inl err \<Rightarrow> Inl err | Inr ys \<Rightarrow> Inr (Vec ys))"
| "permute index_arr (Mat rows) =
     (case fancy rows index_arr of
        Inl err \<Rightarrow> Inl err
      | Inr rows1 \<Rightarrow>
          (case map_raise (\<lambda>row. fancy row index_arr) rows1 of
             Inl err \<Rightarrow> Inl err
           | Inr rows2 \<Rightarrow> Inr (Mat rows2)))"
| "permute index_arr (Stack mats) =
     (case map_raise (\<lambda>rows. fancy rows index_arr) mats of
        Inl err \<Rightarrow> Inl err
      | Inr mats1 \<Rightarrow>
          (case map_raise (map_raise (\<lambda>row. fancy row index_arr)) mats1 of
             Inl err \<Rightarrow> Inl err
           | Inr mats2 \<Rightarrow> Inr (Stack mats2)))"

text \<open>
  \<^verbatim>\<open>np.argsort\<close>: the positions of the entries in ascending order of the entries. Equal
  entries are listed here in the order of their positions; NumPy's default sort leaves
  their order open.
\<close>

definition argsort :: "int list \<Rightarrow> int list" where
  "argsort xs = map int (sort_key (\<lambda>i. xs ! i) [0..<length xs])"

definition permuteToTreeInds :: "CompartmentNode list \<Rightarrow> int list" where
  "permuteToTreeInds ns = map loc_ind ns"

text \<open>
  For a tree without nodes \<^verbatim>\<open>np.array([node.loc_ind for node in self])\<close> is an empty array
  of floats, and NumPy refuses an array of floats as an index: \<^verbatim>\<open>_permuteToTree\<close> raises
  \<^verbatim>\<open>IndexError\<close> whatever the array. \<^verbatim>\<open>np.argsort\<close> returns integers also for an empty
  array, so \<^verbatim>\<open>_permuteToLocs\<close> does not raise there.
\<close>

definition permuteToTree :: "CompartmentNode list \<Rightarrow> 'a tensor \<Rightarrow> error + 'a tensor" where
  "permuteToTree ns mat =
     (if ns = [] then Inl IndexError else permute (permuteToTreeInds ns) mat)"

definition permuteToLocsInds :: "CompartmentNode list \<Rightarrow> int list" where
  "permuteToLocsInds ns = argsort (map loc_ind ns)"

definition permuteToLocs :: "CompartmentNode list \<Rightarrow> 'a tensor \<Rightarrow> error + 'a tensor" where
  "permuteToLocs ns mat = permute (permuteToLocsInds ns) mat"

subsection \<open>The conductance matrix\<close>

text \<open>
  \<^verbatim>\<open>g_mat[ii, jj] += x\<close>: the entry is read first, so an index out of range raises
  before an exception of the right-hand side does.
\<close>

definition mat_iadd :: "real list list \<Rightarrow> int \<Rightarrow> int \<Rightarrow> error + real \<Rightarrow> error + real list list" where
  "mat_iadd g_mat ii jj rhs =
     (case np_index (length g_mat) ii of
        Inl err \<Rightarrow> Inl err
      | Inr a \<Rightarrow>
          (case np_index (length (g_mat ! a)) jj of
             Inl err \<Rightarrow> Inl err
           | Inr b \<Rightarrow>
               (case rhs of
                  Inl err \<Rightarrow> Inl err
                | Inr x \<Rightarrow> Inr (g_mat[a := (g_mat ! a)[b := g_mat ! a ! b + x]]))))"

text \<open>
  One round of the loop of \<^verbatim>\<open>calcConductanceMatrix\<close>. The property \<^verbatim>\<open>node.g_tot\<close> is
  \<^verbatim>\<open>getGTot\<close> with its default arguments.
\<close>

definition calcConductanceMatrix_node ::
  "channelcollection \<Rightarrow> real list list \<Rightarrow> CompartmentNode \<Rightarrow> error + real list list" where
  "calcConductanceMatrix_node cc g_mat node =
     (let ii = index node
      in case mat_iadd g_mat ii ii
                (case getGTot cc node None None None of
                   Inl err \<Rightarrow> Inl err
                 | Inr g_tot \<Rightarrow> Inr (g_tot + g_c node)) of
           Inl err \<Rightarrow> Inl err
         | Inr g1 \<Rightarrow>
             (case parent_node node of
                None \<Rightarrow> Inr g1
              | Some jj \<Rightarrow>
                  (case mat_iadd g1 jj jj (Inr (g_c node)) of
                     Inl err \<Rightarrow> Inl err
                   | Inr g2 \<Rightarrow>
                       (case mat_iadd g2 ii jj (Inr (- g_c node)) of
                          Inl err \<Rightarrow> Inl err
                        | Inr g3 \<Rightarrow> mat_iadd g3 jj ii (Inr (- g_c node))))))"

fun calcConductanceMatrix_loop ::
  "channelcollection \<Rightarrow> real list list \<Rightarrow> CompartmentNode list \<Rightarrow> error + real list list" where
  "calcConductanceMatrix_loop cc g_mat [] = Inr g_mat"
| "calcConductanceMatrix_loop cc g_mat (node # rest) =
     (case calcConductanceMatrix_node cc g_mat node of
        Inl err \<Rightarrow> Inl err
      | Inr g1 \<Rightarrow> calcConductanceMatrix_loop cc g1 rest)"

definition calcConductanceMatrix ::
  "channelcollection \<Rightarrow> CompartmentNode list \<Rightarrow> string \<Rightarrow> error + real list list" where
  "calcConductanceMatrix cc ns indexing =
     (case calcConductanceMatrix_loop cc
             (replicate (length ns) (replicate (length ns) 0)) ns of
        Inl err \<Rightarrow> Inl err
      | Inr g_mat \<Rightarrow>
          (if indexing = ''locs'' then
             (case permuteToLocs ns (Mat g_mat) of
                Inr (Mat g_locs) \<Rightarrow> Inr g_locs
              | Inr _ \<Rightarrow> Inl TypeError
              | Inl err \<Rightarrow> Inl err)
           else if indexing = ''tree'' then Inr g_mat
           else Inl ValueError))"

subsection \<open>Convolution with the passive system\<close>

text \<open>
  \<^verbatim>\<open>calcEigenvalues\<close> returns three arrays that come out of \<^verbatim>\<open>scipy.linalg.eig\<close> and
  \<^verbatim>\<open>scipy.linalg.inv\<close>: the rates \<^verbatim>\<open>alphas\<close> (\<open>n\<close> numbers) and the matrices \<^verbatim>\<open>phimat\<close>
  and \<^verbatim>\<open>phimat_inv\<close> (\<open>n\<close> by \<open>n\<close>), for a tree of \<open>n\<close> nodes. They are a parameter of the
  model. Arrays are given here by their shape and their entries.
\<close>

record eigen =
  n_nodes :: nat
  alphas :: "nat \<Rightarrow> complex"
  phimat :: "nat \<Rightarrow> nat \<Rightarrow> complex"
  phimat_inv :: "nat \<Rightarrow> nat \<Rightarrow> complex"

record array3 =
  shape3 :: "nat \<times> nat \<times> nat"
  entry3 :: "nat \<Rightarrow> nat \<Rightarrow> nat \<Rightarrow> real"

record array4 =
  shape4 :: "nat \<times> nat \<times> nat \<times> nat"
  entry4 :: "nat \<Rightarrow> nat \<Rightarrow> nat \<Rightarrow> nat \<Rightarrow> real"

text \<open>The propagators \<^verbatim>\<open>p0\<close>, \<^verbatim>\<open>p1\<close>, \<^verbatim>\<open>p2\<close> and \<^verbatim>\<open>p_\<close> (here \<open>p_first\<close>), one for each rate.\<close>

definition p0 :: "eigen \<Rightarrow> real \<Rightarrow> nat \<Rightarrow> complex" where
  "p0 eig dt n = exp (alphas eig n * of_real dt)"

definition p1 :: "eigen \<Rightarrow> real \<Rightarrow> nat \<Rightarrow> complex" where
  "p1 eig dt n =
     - 1 / alphas eig n + (p0 eig dt n - 1) / ((alphas eig n)\<^sup>2 * of_real dt)"

definition p2 :: "eigen \<Rightarrow> real \<Rightarrow> nat \<Rightarrow> complex" where
  "p2 eig dt n =
     p0 eig dt n / alphas eig n - (p0 eig dt n - 1) / ((alphas eig n)\<^sup>2 * of_real dt)"

definition p_first :: "eigen \<Rightarrow> nat \<Rightarrow> complex" where
  "p_first eig n = - 1 / alphas eig n"

text \<open>
  The two products \<^verbatim>\<open>einsum('nk,kct->nkct', phimat_inv, inputs)\<close> and
  \<^verbatim>\<open>einsum('ln,nkct->lnkct', phimat, inputs)\<close>, with the time index moved to the front.
\<close>

definition inputs_nkct :: "eigen \<Rightarrow> array3 \<Rightarrow> nat \<Rightarrow> nat \<Rightarrow> nat \<Rightarrow> nat \<Rightarrow> complex" where
  "inputs_nkct eig inputs n k c t = phimat_inv eig n k * of_real (entry3 inputs k c t)"

definition inputs_tlnkc :: "eigen \<Rightarrow> array3 \<Rightarrow> nat \<Rightarrow> nat \<Rightarrow> nat \<Rightarrow> nat \<Rightarrow> nat \<Rightarrow> complex" where
  "inputs_tlnkc eig inputs t l n k c = phimat eig l n * inputs_nkct eig inputs n k c t"

text \<open>
  The loop: \<^verbatim>\<open>convvar\<close> after the round that fills \<^verbatim>\<open>convres[t]\<close>. Round 0 is the
  assignment before the loop; round \<open>kk + 1\<close> reads \<^verbatim>\<open>inp = inputs[kk + 1]\<close> and
  \<^verbatim>\<open>inp_prev = inputs[kk]\<close>.
\<close>

primrec convvar ::
  "eigen \<Rightarrow> real \<Rightarrow> array3 \<Rightarrow> nat \<Rightarrow> nat \<Rightarrow> nat \<Rightarrow> nat \<Rightarrow> nat \<Rightarrow> complex" where
  "convvar eig dt inputs 0 l n k c = p_first eig n * inputs_tlnkc eig inputs 0 l n k c"
| "convvar eig dt inputs (Suc kk) l n k c =
     p0 eig dt n * convvar eig dt inputs kk l n k c
       + p1 eig dt n * inputs_tlnkc eig inputs (Suc kk) l n k c
       + p2 eig dt n * inputs_tlnkc eig inputs kk l n k c"

text \<open>
  \<^verbatim>\<open>_calcConvolution\<close>. The first \<^verbatim>\<open>einsum\<close> raises \<^verbatim>\<open>ValueError\<close> unless the inputs have
  one site for each node; \<^verbatim>\<open>inputs[0]\<close> raises \<^verbatim>\<open>IndexError\<close> when there is no time step.
  The result sums \<^verbatim>\<open>convres\<close> over \<open>n\<close>, has the time index last, and is the real part.
\<close>

definition calcConvolution :: "eigen \<Rightarrow> real \<Rightarrow> array3 \<Rightarrow> error + array4" where
  "calcConvolution eig dt inputs =
     (case shape3 inputs of
        (n_k, n_c, n_t) \<Rightarrow>
          if n_k \<noteq> n_nodes eig then Inl ValueError
          else if n_t = 0 then Inl IndexError
          else Inr \<lparr>shape4 = (n_nodes eig, n_k, n_c, n_t),
                    entry4 = (\<lambda>l k c t. Re (\<Sum>n < n_nodes eig. convvar eig dt inputs t l n k c))\<rparr>)"

section \<open>Auxiliary notions for the proofs\<close>

text \<open>
  The conductance term of one channel, read off a node and a storage: the value that one
  round of the loop of \<^verbatim>\<open>calcMembraneConductanceTerms\<close> stores, when the channel has a
  current, a channel object and an expansion point.
\<close>

definition term_of ::
  "channelcollection \<Rightarrow> CompartmentNode \<Rightarrow> channel_storage option \<Rightarrow> complex numpy \<Rightarrow> string
     \<Rightarrow> complex numpy option" where
  "term_of cc node storage freqs name =
     (case map_of (currents node) name of
        None \<Rightarrow> None
      | Some (g, e) \<Rightarrow>
          (case getCurrent cc name storage of
             Inl err \<Rightarrow> None
           | Inr chan \<Rightarrow>
               (case map_of (expansion_points node) name of
                  None \<Rightarrow> None
                | Some sv \<Rightarrow>
                    Some (map_numpy (\<lambda>freq. - computeLinSum chan (e_eq node) freq e sv) freqs))))"

text \<open>
  Indexing with an integer array whose indices are in range and not negative is a
  \<open>map\<close>; \<open>permuted\<close> is \<^const>\<open>permute\<close> in that case. \<open>undoes n p q\<close> says that
  looking up first in \<open>q\<close> and then in \<open>p\<close> gives the position back.
\<close>

definition pick :: "'a list \<Rightarrow> int list \<Rightarrow> 'a list" where
  "pick xs index_arr = map (\<lambda>i. xs ! nat i) index_arr"

definition in_range :: "nat \<Rightarrow> int list \<Rightarrow> bool" where
  "in_range n index_arr = (\<forall>i \<in> set index_arr. 0 \<le> i \<and> i < int n)"

definition undoes :: "nat \<Rightarrow> int list \<Rightarrow> int list \<Rightarrow> bool" where
  "undoes n p q \<longleftrightarrow>
     length p = n \<and> length q = n \<and> in_range n p \<and> in_range n q \<and>
     (\<forall>k < n. p ! nat (q ! k) = int k)"

text \<open>
  An array fits a tree of \<open>n\<close> nodes when each permuted axis has length \<open>n\<close>: a vector of
  length \<open>n\<close>, an \<open>n\<close> by \<open>n\<close> matrix, or a list of such matrices.
\<close>

fun fits :: "nat \<Rightarrow> 'a tensor \<Rightarrow> bool" where
  "fits n (Vec xs) \<longleftrightarrow> length xs = n"
| "fits n (Mat rows) \<longleftrightarrow> length rows = n \<and> (\<forall>row \<in> set rows. length row = n)"
| "fits n (Stack mats) \<longleftrightarrow>
     (\<forall>rows \<in> set mats. length rows = n \<and> (\<forall>row \<in> set rows. length row = n))"

fun permuted :: "int list \<Rightarrow> 'a tensor \<Rightarrow> 'a tensor" where
  "permuted index_arr (Vec xs) = Vec (pick xs index_arr)"
| "permuted index_arr (Mat rows) = Mat (map (\<lambda>row. pick row index_arr) (pick rows index_arr))"
| "permuted index_arr (Stack mats) =
     Stack (map (\<lambda>rows. map (\<lambda>row. pick row index_arr) (pick rows index_arr)) mats)"

text \<open>
  A square matrix of size \<open>n\<close>; adding to one entry; and the two properties of the
  conductance matrix, symmetry and off-diagonal entries that are not positive.
\<close>

definition square :: "nat \<Rightarrow> 'a list list \<Rightarrow> bool" where
  "square n m \<longleftrightarrow> length m = n \<and> (\<forall>row \<in> set m. length row = n)"

definition entry_add :: "real list list \<Rightarrow> nat \<Rightarrow> nat \<Rightarrow> real \<Rightarrow> real list list" where
  "entry_add m a b x = m[a := (m ! a)[b := m ! a ! b + x]]"

definition laplacian_signs :: "nat \<Rightarrow> real list list \<Rightarrow> bool" where
  "laplacian_signs n m \<longleftrightarrow>
     square n m \<and>
     (\<forall>i < n. \<forall>j < n. m ! i ! j = m ! j ! i) \<and>
     (\<forall>i < n. \<forall>j < n. i \<noteq> j \<longrightarrow> m ! i ! j \<le> 0)"

text \<open>An index that NumPy accepts for an axis of length \<open>n\<close>.\<close>

definition index_ok :: "nat \<Rightarrow> int \<Rightarrow> bool" where
  "index_ok n i \<longleftrightarrow> - int n \<le> i \<and> i < int n"

subsection \<open>Non-negative least squares\<close>






definition scaled :: "real \<Rightarrow> real list list \<Rightarrow> real list list" where
  "scaled k A = map (map (\<lambda>x. x * k)) A"


definition tagged :: "bool \<Rightarrow> kwargs \<Rightarrow> fit_data" where
  "tagged cap kw =
     (case store_family cap kw idle_fit_data of Inr fd \<Rightarrow> fd | Inl err \<Rightarrow> idle_fit_data)"




subsection \<open>The convolution as the specification describes it\<close>

text \<open>
  The state in the eigenbasis, for mode \<open>n\<close>, input site \<open>k\<close> and channel \<open>c\<close>: it starts
  as the code starts, and each step takes \<open>p0\<close> times the state, \<open>p1\<close> times the new input
  and \<open>p2\<close> times the previous input, the input being seen through \<^verbatim>\<open>phimat_inv\<close>. The
  convolution at node \<open>l\<close> is the projection of the state through \<^verbatim>\<open>phimat\<close>.
\<close>

primrec eigen_state ::
  "eigen \<Rightarrow> real \<Rightarrow> array3 \<Rightarrow> nat \<Rightarrow> nat \<Rightarrow> nat \<Rightarrow> nat \<Rightarrow> complex" where
  "eigen_state eig dt inputs 0 n k c = p_first eig n * inputs_nkct eig inputs n k c 0"
| "eigen_state eig dt inputs (Suc t) n k c =
     p0 eig dt n * eigen_state eig dt inputs t n k c
       + p1 eig dt n * inputs_nkct eig inputs n k c (Suc t)
       + p2 eig dt n * inputs_nkct eig inputs n k c t"

definition project :: "eigen \<Rightarrow> (nat \<Rightarrow> complex) \<Rightarrow> nat \<Rightarrow> real" where
  "project eig state l = Re (\<Sum>n < n_nodes eig. phimat eig l n * state n)"
section \<open>Example data\<close>

text \<open>Concrete inputs at which the theorems below are evaluated.\<close>

definition idle_state :: state where
  "idle_state =
     \<lparr>tree = \<lparr>nodes = [], channel_storage = (\<lambda>_. None), fit_data = idle_fit_data\<rparr>,
      heap = (\<lambda>_. Arr1 []), warnings = []\<rparr>"

definition capacitance_stored :: state where
  "capacitance_stored =
     snd (fitResAction (\<lambda>A b. Inl RuntimeError) ''store'' 0 1 1 True
            \<lparr>kw_channel_names = None, kw_ion = None\<rparr> idle_state)"


text \<open>
  A channel with one state variable, which is its open probability and whose asymptotic
  value is 1/2; a node with the leak and this channel, at a given expansion point; the
  same node with the leak reversal that \<^verbatim>\<open>fitEL\<close> computes.
\<close>

definition chan_m :: channel where
  "chan_m = \<lparr>f_varinf = [\<lambda>v. 1 / 2], f_p_open = (\<lambda>v sv. sum_list sv),
             dp_dx = (\<lambda>v sv. [1]), df_dv = (\<lambda>v sv. [1]), df_dx = (\<lambda>v sv. [- 1])\<rparr>"

definition cc_m :: channelcollection where
  "cc_m = \<lparr>channel_class = [''m'' \<mapsto> chan_m], E_REV_DICT = [''m'' \<mapsto> 1]\<rparr>"

definition node_m :: "real list option \<Rightarrow> CompartmentNode" where
  "node_m sv = \<lparr>index = 0, parent_node = None, loc_ind = 0, ca = 1, g_c = 0, e_eq = 0,
               currents = [(''L'', (1, 0)), (''m'', (1, 1))], concmechs = [],
               expansion_points = [(''m'', sv)]\<rparr>"

definition node_m_fitted :: "real list option \<Rightarrow> CompartmentNode" where
  "node_m_fitted sv = (node_m sv)\<lparr>currents := [(''L'', (1, - 1 / 2)), (''m'', (1, 1))]\<rparr>"

text \<open>
  A tree of two such nodes, the root and its child, held in the order opposite to the
  order of their locations; the coupling conductance of the child is 2.
\<close>

definition two_nodes :: "CompartmentNode list" where
  "two_nodes =
     [(node_m None)\<lparr>index := 0, loc_ind := 1\<rparr>,
      (node_m None)\<lparr>index := 1, parent_node := Some 0, loc_ind := 0, g_c := 2\<rparr>]"




text \<open>
  One node with the rate -1, a constant input of two time steps, and the array that
  \<^verbatim>\<open>_calcConvolution\<close> builds from them for the step size 1.
\<close>

definition eig_one :: eigen where
  "eig_one = \<lparr>n_nodes = 1, alphas = (\<lambda>n. - 1), phimat = (\<lambda>l n. 2), phimat_inv = (\<lambda>n k. 1 / 2)\<rparr>"

definition step_input :: array3 where
  "step_input = \<lparr>shape3 = (1, 1, 2), entry3 = (\<lambda>k c t. 1)\<rparr>"

definition conv_one :: array4 where
  "conv_one = \<lparr>shape4 = (1, 1, 1, 2),
               entry4 = (\<lambda>l k c t. Re (\<Sum>n < 1. convvar eig_one 1 step_input t l n k c))\<rparr>"




section \<open>Theorems\<close>

text \<open>
  When the argument of \<^verbatim>\<open>addCurrent\<close> is the object of the literal \<^verbatim>\<open>'L'\<close>, the call
  changes nothing and raises nothing.
\<close>

lemma addCurrent_literal_unchanged:
  "addCurrent cc Literal_L e_rev node storage = (None, node, storage)"
  by (simp add: addCurrent_def)

text \<open>
  Claim C10 (the code departs from it). The guard of \<^verbatim>\<open>addCurrent\<close> tests identity, while
  \<^verbatim>\<open>getGTot\<close> and \<^verbatim>\<open>getITot\<close> test \<^verbatim>\<open>channel_name != 'L'\<close>. For a string with the
  characters \<^verbatim>\<open>L\<close> that is another object than the literal, the body runs: with the
  reversal -75 the leak entry of \<^verbatim>\<open>currents\<close> loses its conductance 1 and its reversal 0
  and becomes \<^verbatim>\<open>[0., -75.]\<close>, and \<^verbatim>\<open>expansion_points\<close> gets the entry \<^verbatim>\<open>'L'\<close>; without a
  reversal, \<^verbatim>\<open>E_REV_DICT['L']\<close> raises \<^verbatim>\<open>KeyError\<close> in a collection that has no such entry.
\<close>

theorem addCurrent_other_L_overwrites_leak:
  "addCurrent cc_m (Str ''L'') (Some (- 75)) (node_m None) None
     = (None,
        (node_m None)\<lparr>currents := [(''L'', (0, - 75)), (''m'', (1, 1))],
                       expansion_points := [(''m'', None), (''L'', None)]\<rparr>,
        None) \<and>
   map_of (currents (node_m None)) ''L'' = Some (1, 0) \<and>
   addCurrent cc_m (Str ''L'') None (node_m None) None = (Some KeyError, node_m None, None)"
  by (simp add: addCurrent_def node_m_def cc_m_def)

text \<open>
  Claim C8. When the accumulator holds no feature matrix, \<^verbatim>\<open>runFit\<close> returns without an
  exception, adds one warning, and changes nothing else: the nodes, the channel storage,
  the accumulator and the arrays on the heap are the same. The result does not depend on
  the solver, even on one that always raises, so no solve takes place.
\<close>

theorem runFit_empty_noop:
  assumes "mats_feature (fit_data (tree s)) = []"
  shows "runFit nnls s = (None, s\<lparr>warnings := warnings s @ [no_fit_warning]\<rparr>)"
  using assms by (simp add: runFit_def)

theorem runFit_empty_noop_witness:
  "mats_feature (fit_data (tree idle_state)) = [] \<and>
   runFit (\<lambda>A b. Inl RuntimeError) idle_state
     = (None, idle_state\<lparr>warnings := [no_fit_warning]\<rparr>)"
  using runFit_empty_noop [of idle_state "\<lambda>A b. Inl RuntimeError"]
  by (simp add: idle_state_def idle_fit_data_def)

text \<open>
  Stores that \<^verbatim>\<open>_fitResAction\<close> refuses: channel conductances on top of an ion or of
  other channel names, an ion on top of channel conductances or of another ion. The state
  is then as before the call.
\<close>

lemma store_family_mismatch_raises:
  "kw_channel_names kw = Some names \<Longrightarrow> ion fd \<noteq> [] \<Longrightarrow> store_family cap kw fd = Inl IOError"
  "kw_channel_names kw = Some names \<Longrightarrow> channel_names fd \<noteq> [] \<Longrightarrow> channel_names fd \<noteq> names
     \<Longrightarrow> store_family cap kw fd = Inl IOError"
  "kw_channel_names kw = None \<Longrightarrow> kw_ion kw = Some ion_name \<Longrightarrow> channel_names fd \<noteq> []
     \<Longrightarrow> store_family cap kw fd = Inl IOError"
  "kw_channel_names kw = None \<Longrightarrow> kw_ion kw = Some ion_name \<Longrightarrow> channel_names fd = []
     \<Longrightarrow> ion fd \<noteq> [] \<Longrightarrow> ion fd \<noteq> ion_name \<Longrightarrow> store_family cap kw fd = Inl NameError"
  by (simp_all add: store_family_def)

lemma store_raise_keeps_state:
  "fitResAction nnls ''store'' m v w cap kw s = (Inl err, s') \<Longrightarrow> s' = s"
  by (auto simp: fitResAction_def split: sum.splits)

text \<open>
  Claim C7 (the code departs from it: not every mismatched pair of families is refused).
  The capacitance family takes part in no check. Here a capacitance fit is stored in the
  idle accumulator (arrays 0 and 1), then a channel-conductance fit for \<^verbatim>\<open>['Na']\<close>
  (arrays 2 and 3): the second call returns normally and the accumulator holds both
  triples, with the tags of both families set.
\<close>

theorem store_channels_on_capacitance_accepted:
  "c_key (fit_data (tree capacitance_stored)) \<and>
   mats_feature (fit_data (tree capacitance_stored)) = [0] \<and>
   (case fitResAction (\<lambda>A b. Inl RuntimeError) ''store'' 2 3 1 False
           \<lparr>kw_channel_names = Some [''Na''], kw_ion = None\<rparr> capacitance_stored of
      (r, s') \<Rightarrow>
        r = Inr None \<and>
        mats_feature (fit_data (tree s')) = [0, 2] \<and>
        vecs_target (fit_data (tree s')) = [1, 3] \<and>
        weights_fit (fit_data (tree s')) = [1, 1] \<and>
        channel_names (fit_data (tree s')) = [''Na''] \<and>
        c_key (fit_data (tree s')))"
  by (simp add: capacitance_stored_def fitResAction_def store_family_def idle_state_def
      idle_fit_data_def)

subsection \<open>The leak reversal fitted by \<^verbatim>\<open>fitEL\<close>\<close>

text \<open>
  The loop of \<^verbatim>\<open>fitEL\<close> and the loop of \<^verbatim>\<open>getITot\<close> add the same channel currents with
  opposite signs, as long as \<^verbatim>\<open>getITot\<close> finds the expansion point \<^verbatim>\<open>None\<close>.
\<close>

lemma set_minus_L_distinct: "distinct names \<Longrightarrow> set_minus_L names = filter (\<lambda>name. name \<noteq> ''L'') names"
  by (simp add: set_minus_L_def distinct_remdups_id)

lemma fitEL_getITot_loops:
  assumes "e_eq n2 = e_eq n1" "expansion_points n2 = expansion_points n1"
    and "\<forall>name. name \<noteq> ''L'' \<longrightarrow> map_of (currents n2) name = map_of (currents n1) name"
    and "\<forall>name \<in> set names. name \<noteq> ''L'' \<longrightarrow> map_of (expansion_points n1) name = Some None"
    and "fitEL_loop cc n1 storage (filter (\<lambda>name. name \<noteq> ''L'') names) a = Inr i"
  shows "getITot_loop cc n2 (e_eq n1) storage Map.empty names b = Inr (b - (i - a))"
  using assms(4,5)
proof (induction names arbitrary: a b)
  case Nil
  then show ?case by simp
next
  case (Cons name names)
  show ?case
  proof (cases "name = ''L''")
    case True
    with Cons show ?thesis by simp
  next
    case False
    from Cons.prems(2) False obtain g e chan where
      cur: "map_of (currents n1) name = Some (g, e)" and
      ch: "(case storage of Some st \<Rightarrow> (case st name of None \<Rightarrow> Inl KeyError | Some chan \<Rightarrow> Inr chan)
             | None \<Rightarrow> eval_channel cc name) = Inr chan" and
      rest: "fitEL_loop cc n1 storage (filter (\<lambda>name. name \<noteq> ''L'') names)
               (a + g * computePOpen chan (e_eq n1) None * (e - e_eq n1)) = Inr i"
      by (auto split: option.splits sum.splits prod.splits simp: Let_def)
    from ch have gc: "getCurrent cc name storage = Inr chan"
      by (auto simp: getCurrent_def split: option.splits)
    from Cons.prems(1) False have ep: "map_of (expansion_points n1) name = Some None" by simp
    from Cons.prems(1) have ep_rest:
      "\<forall>name \<in> set names. name \<noteq> ''L'' \<longrightarrow> map_of (expansion_points n1) name = Some None" by simp
    have "getITot_loop cc n2 (e_eq n1) storage Map.empty names
            (b + g * computePOpen chan (e_eq n1) None * (e_eq n1 - e))
          = Inr (b + g * computePOpen chan (e_eq n1) None * (e_eq n1 - e)
                 - (i - (a + g * computePOpen chan (e_eq n1) None * (e - e_eq n1))))"
      using Cons.IH [OF ep_rest rest] .
    moreover have "b + g * computePOpen chan (e_eq n1) None * (e_eq n1 - e)
                 - (i - (a + g * computePOpen chan (e_eq n1) None * (e - e_eq n1))) = b - (i - a)"
      by (simp add: algebra_simps)
    ultimately show ?thesis
      using False cur gc ep assms(1,2,3) by simp
  qed
qed

lemma fitEL_loop_returns:
  assumes "\<forall>name \<in> set names. map_of (currents node) name \<noteq> None \<and>
             (case storage of Some st \<Rightarrow> st name \<noteq> None | None \<Rightarrow> channel_class cc name \<noteq> None)"
  shows "\<exists>i. fitEL_loop cc node storage names a = Inr i"
  using assms
proof (induction names arbitrary: a)
  case Nil
  then show ?case by simp
next
  case (Cons name names)
  then show ?case
    by (cases storage) (auto simp: eval_channel_def Let_def split: option.splits)
qed


text \<open>
  Claim C5, as amended. For a node whose leak conductance is not zero, whose other
  channels are available (in the storage passed, or in the channel collection when none
  is passed) and are linearised at the default expansion point \<^verbatim>\<open>None\<close>, \<^verbatim>\<open>fitEL\<close> returns,
  the node differs from the old one in the leak reversal only, and \<^verbatim>\<open>getITot\<close> at the
  equilibrium potential of the new node is zero.
\<close>

theorem fitEL_zero_total_current:
  assumes L: "map_of (currents node) ''L'' = Some (g_l, e_l)" and nz: "g_l \<noteq> 0"
    and dict: "distinct (dict_keys (currents node))"
    and avail: "\<forall>name \<in> set (dict_keys (currents node)). name \<noteq> ''L'' \<longrightarrow>
                  (case storage of Some st \<Rightarrow> st name \<noteq> None | None \<Rightarrow> channel_class cc name \<noteq> None)"
    and asym: "\<forall>name \<in> set (dict_keys (currents node)). name \<noteq> ''L'' \<longrightarrow>
                  map_of (expansion_points node) name = Some None"
  shows "\<exists>e_l'. fitEL cc node storage = Inr (node\<lparr>currents := AList.update ''L'' (g_l, e_l') (currents node)\<rparr>)
           \<and> getITot cc (node\<lparr>currents := AList.update ''L'' (g_l, e_l') (currents node)\<rparr>)
                 None None storage Map.empty = Inr 0
           \<and> getITot cc (node\<lparr>currents := AList.update ''L'' (g_l, e_l') (currents node)\<rparr>)
                 (Some (e_eq node)) None storage Map.empty = Inr 0"
proof -
  let ?keys = "dict_keys (currents node)"
  let ?names = "filter (\<lambda>name. name \<noteq> ''L'') ?keys"
  have sm: "set_minus_L ?keys = ?names"
    using dict by (rule set_minus_L_distinct)
  have "\<forall>name \<in> set ?names. map_of (currents node) name \<noteq> None \<and>
          (case storage of Some st \<Rightarrow> st name \<noteq> None | None \<Rightarrow> channel_class cc name \<noteq> None)"
    using avail by (auto simp: dict_keys_def map_of_eq_None_iff)
  then obtain i where i: "fitEL_loop cc node storage ?names 0 = Inr i"
    using fitEL_loop_returns by blast
  define e_l' where "e_l' = e_eq node - i / g_l"
  define node' where "node' = node\<lparr>currents := AList.update ''L'' (g_l, e_l') (currents node)\<rparr>"
  have fit: "fitEL cc node storage = Inr node'"
    using i L nz by (simp add: fitEL_def sm node'_def e_l'_def)
  have Lkey: "''L'' \<in> set ?keys"
    using L by (metis dict_keys_def list.set_map map_of_eq_None_iff option.distinct(1))
  have keys': "dict_keys (currents node') = ?keys"
    using Lkey by (simp add: node'_def dict_keys_def update_keys)
  have L': "map_of (currents node') ''L'' = Some (g_l, e_l')"
    by (simp add: node'_def update_conv')
  have others: "\<forall>name. name \<noteq> ''L'' \<longrightarrow> map_of (currents node') name = map_of (currents node) name"
    by (simp add: node'_def update_conv')
  have first: "g_l * (e_eq node - e_l') = i"
    using nz by (simp add: e_l'_def)
  have loop: "getITot_loop cc node' (e_eq node) storage Map.empty ?keys i = Inr (i - (i - 0))"
    by (rule fitEL_getITot_loops [OF _ _ others asym i]) (simp_all add: node'_def)
  have eq': "e_eq node' = e_eq node" by (simp add: node'_def)
  have "getITot cc node' None None storage Map.empty = Inr 0"
    using loop Lkey L' first by (simp add: getITot_def keys' eq')
  moreover have "getITot cc node' (Some (e_eq node)) None storage Map.empty = Inr 0"
    using loop Lkey L' first by (simp add: getITot_def keys' eq')
  ultimately show ?thesis
    using fit unfolding node'_def by blast
qed

theorem fitEL_zero_total_current_witness:
  "map_of (currents (node_m None)) ''L'' = Some (1, 0) \<and>
   distinct (dict_keys (currents (node_m None))) \<and>
   fitEL cc_m (node_m None) None = Inr (node_m_fitted None) \<and>
   getITot cc_m (node_m_fitted None) None None None Map.empty = Inr 0"
  using fitEL_zero_total_current [where node = "node_m None" and g_l = 1 and e_l = 0
      and storage = None and cc = cc_m]
  by (simp add: node_m_def node_m_fitted_def cc_m_def dict_keys_def fitEL_def getITot_def
      set_minus_L_def eval_channel_def getCurrent_def computePOpen_def chan_m_def statevar_args_def)

text \<open>
  Claim C5 as stated fails. The node has leak conductance 1 and one channel \<^verbatim>\<open>m\<close> with
  conductance 1, reversal 1 and the explicit expansion point \<^verbatim>\<open>[1]\<close>; the channel's open
  probability is its state variable, whose asymptotic value is 1/2. \<^verbatim>\<open>fitEL\<close> takes the
  asymptotic open probability and sets the leak reversal to -1/2; \<^verbatim>\<open>getITot\<close> takes the
  expansion point and returns -1/2.
\<close>

theorem fitEL_expansion_point_counterexample:
  "map_of (currents (node_m (Some [1]))) ''L'' = Some (1, 0) \<and>
   fitEL cc_m (node_m (Some [1])) None = Inr (node_m_fitted (Some [1])) \<and>
   getITot cc_m (node_m_fitted (Some [1])) None None None Map.empty = Inr (- 1 / 2) \<and>
   getITot cc_m (node_m_fitted (Some [1])) None None None Map.empty \<noteq> Inr 0"
  by (simp add: fitEL_def getITot_def node_m_def node_m_fitted_def cc_m_def chan_m_def
      set_minus_L_def dict_keys_def eval_channel_def getCurrent_def computePOpen_def
      statevar_args_def)

subsection \<open>The conductance terms of a node\<close>

text \<open>
  One round of the loop of \<^verbatim>\<open>calcMembraneConductanceTerms\<close> touches the entries of its
  own channel only, so what a round has stored is still there, and still agrees with the
  node and the storage, when the loop ends.
\<close>

lemma getCurrent_upd_other:
  "k \<noteq> c \<Longrightarrow> getCurrent cc k (Some (st(c \<mapsto> chan))) = getCurrent cc k (Some st)"
  by (simp add: getCurrent_def)

lemma addCurrent_frame:
  assumes "addCurrent cc (Str c) e_rev node storage = (None, node1, storage1)"
  shows "e_eq node1 = e_eq node"
    and "k \<noteq> c \<Longrightarrow> map_of (currents node1) k = map_of (currents node) k"
    and "k \<noteq> c \<Longrightarrow> map_of (expansion_points node1) k = map_of (expansion_points node) k"
    and "k \<noteq> c \<Longrightarrow> getCurrent cc k storage1 = getCurrent cc k storage"
  using assms
  by (auto simp: addCurrent_def Let_def update_conv' getCurrent_upd_other
      split: if_splits option.splits sum.splits)

lemma term_of_cong:
  assumes "e_eq n2 = e_eq n1" "map_of (currents n2) k = map_of (currents n1) k"
    "map_of (expansion_points n2) k = map_of (expansion_points n1) k"
    "getCurrent cc k s2 = getCurrent cc k s1"
  shows "term_of cc n2 s2 freqs k = term_of cc n1 s1 freqs k"
  using assms by (simp add: term_of_def split: option.splits sum.splits prod.splits)

lemma conductance_loop_inv:
  assumes "calcMembraneConductanceTerms_loop cc freqs cs terms node st = (Inr terms', node', st')"
    and "distinct cs"
  shows "e_eq node' = e_eq node \<and>
         (\<forall>k. k \<notin> set cs \<longrightarrow>
            map_of terms' k = map_of terms k \<and>
            map_of (currents node') k = map_of (currents node) k \<and>
            map_of (expansion_points node') k = map_of (expansion_points node) k \<and>
            getCurrent cc k st' = getCurrent cc k st) \<and>
         (\<forall>k \<in> set cs. map_of terms' k \<noteq> None \<and> map_of terms' k = term_of cc node' st' freqs k)"
  using assms
proof (induction cs arbitrary: terms node st)
  case Nil
  then show ?case by simp
next
  case (Cons c cs)
  define r where "r = (if map_of (currents node) c = None
            then addCurrent cc (Str c) None node st else (None, node, st))"
  obtain err1 node1 st1 where r1: "r = (err1, node1, st1)" by (cases r) auto
  from Cons.prems(1) r1 have e1: "err1 = None"
    by (cases err1) (auto simp: r_def [symmetric])
  have frame1: "e_eq node1 = e_eq node"
    "\<And>k. k \<noteq> c \<Longrightarrow> map_of (currents node1) k = map_of (currents node) k"
    "\<And>k. k \<noteq> c \<Longrightarrow> map_of (expansion_points node1) k = map_of (expansion_points node) k"
    "\<And>k. k \<noteq> c \<Longrightarrow> getCurrent cc k st1 = getCurrent cc k st"
    using r1 e1 addCurrent_frame [of cc c None node st node1 st1]
    by (auto simp: r_def split: if_splits)
  from Cons.prems(1) r1 e1 obtain g e chan sv where
    cur: "map_of (currents node1) c = Some (g, e)" and
    gc: "getCurrent cc c st1 = Inr chan" and
    ep: "map_of (expansion_points node1) c = Some sv" and
    rec: "calcMembraneConductanceTerms_loop cc freqs cs
            (AList.update c (map_numpy (\<lambda>freq. - computeLinSum chan (e_eq node1) freq e sv) freqs) terms)
            node1 st1 = (Inr terms', node', st')"
    by (auto simp: r_def [symmetric] split: option.splits sum.splits prod.splits)
  from Cons.prems(2) have dcs: "distinct cs" and cnot: "c \<notin> set cs" by simp_all
  note IH = Cons.IH [OF rec dcs]
  have t1: "term_of cc node1 st1 freqs c
              = Some (map_numpy (\<lambda>freq. - computeLinSum chan (e_eq node1) freq e sv) freqs)"
    using cur gc ep by (simp add: term_of_def)
  have headc: "map_of terms' c = term_of cc node' st' freqs c \<and> map_of terms' c \<noteq> None"
  proof -
    from IH cnot have a: "map_of terms' c
        = Some (map_numpy (\<lambda>freq. - computeLinSum chan (e_eq node1) freq e sv) freqs)"
      by (simp add: update_conv')
    have "term_of cc node' st' freqs c = term_of cc node1 st1 freqs c"
      using IH cnot by (intro term_of_cong) auto
    with a t1 show ?thesis by simp
  qed
  show ?case
  proof (intro conjI allI ballI impI)
    show "e_eq node' = e_eq node" using IH frame1 by simp
  next
    fix k assume k: "k \<notin> set (c # cs)"
    then have kc: "k \<noteq> c" and kcs: "k \<notin> set cs" by auto
    show "map_of terms' k = map_of terms k" using IH kc kcs by (simp add: update_conv')
    show "map_of (currents node') k = map_of (currents node) k" using IH kc kcs frame1 by simp
    show "map_of (expansion_points node') k = map_of (expansion_points node) k"
      using IH kc kcs frame1 by simp
    show "getCurrent cc k st' = getCurrent cc k st" using IH kc kcs frame1 by simp
  next
    fix k assume "k \<in> set (c # cs)"
    then show "map_of terms' k \<noteq> None" using headc IH by auto
  next
    fix k assume "k \<in> set (c # cs)"
    then show "map_of terms' k = term_of cc node' st' freqs k" using headc IH by auto
  qed
qed

lemma set_set_minus_L: "set (set_minus_L names) = set names - {''L''}"
  by (auto simp: set_minus_L_def)

lemma distinct_set_minus_L: "distinct (set_minus_L names)"
  by (simp add: set_minus_L_def)

text \<open>
  The call returns when every requested channel other than the leak has a current, a
  channel object and an expansion point; it then leaves the node and the storage as they
  are.
\<close>

lemma conductance_loop_returns:
  assumes "\<forall>name \<in> set cs. term_of cc node storage freqs name \<noteq> None"
  shows "\<exists>terms'. calcMembraneConductanceTerms_loop cc freqs cs terms node storage
                     = (Inr terms', node, storage)"
  using assms
proof (induction cs arbitrary: terms)
  case Nil
  then show ?case by simp
next
  case (Cons c cs)
  from Cons.prems obtain g e chan sv where
    "map_of (currents node) c = Some (g, e)" "getCurrent cc c storage = Inr chan"
    "map_of (expansion_points node) c = Some sv"
    by (auto simp: term_of_def split: option.splits sum.splits)
  moreover from Cons.prems have "\<forall>name \<in> set cs. term_of cc node storage freqs name \<noteq> None"
    by simp
  ultimately show ?case
    using Cons.IH by simp
qed

lemma conductance_terms_returns:
  assumes "\<forall>name \<in> set names - {''L''}. term_of cc node storage freqs name \<noteq> None"
  shows "\<exists>cond_terms. calcMembraneConductanceTerms cc node freqs (Some names) storage
           = (Inr cond_terms, node, storage)"
  using assms conductance_loop_returns [of "set_minus_L names" cc node storage freqs]
  by (simp add: calcMembraneConductanceTerms_def set_set_minus_L)

text \<open>
  Claim C4. When \<^verbatim>\<open>calcMembraneConductanceTerms\<close> is called with a channel list that
  contains \<^verbatim>\<open>'L'\<close> and returns, the dictionary it returns maps \<^verbatim>\<open>'L'\<close> to the number 1,
  and every other requested channel to minus its linearised admittance
  \<^verbatim>\<open>(e_rev - v) * computeLinear - computePOpen\<close>, taken at the node's \<^verbatim>\<open>e_eq\<close>, at each
  requested frequency, with the reversal and the expansion point stored at the node for
  this channel and the channel object that \<^verbatim>\<open>getCurrent\<close> gives.
\<close>

theorem conductance_terms:
  assumes "calcMembraneConductanceTerms cc node freqs (Some names) storage
             = (Inr cond_terms, node', storage')"
    and "''L'' \<in> set names"
  shows "map_of cond_terms ''L'' = Some (Scalar 1) \<and>
         (\<forall>name \<in> set names - {''L''}.
            \<exists>g e chan sv.
              map_of (currents node') name = Some (g, e) \<and>
              getCurrent cc name storage' = Inr chan \<and>
              map_of (expansion_points node') name = Some sv \<and>
              map_of cond_terms name
                = Some (map_numpy
                         (\<lambda>freq. - (of_real (e - e_eq node') * computeLinear chan (e_eq node') freq sv
                                      - of_real (computePOpen chan (e_eq node') sv)))
                         freqs))"
proof -
  from assms have loop: "calcMembraneConductanceTerms_loop cc freqs (set_minus_L names)
                           [(''L'', Scalar 1)] node storage = (Inr cond_terms, node', storage')"
    by (simp add: calcMembraneConductanceTerms_def)
  note inv = conductance_loop_inv [OF loop distinct_set_minus_L]
  have "''L'' \<notin> set (set_minus_L names)" by (simp add: set_set_minus_L)
  with inv have L: "map_of cond_terms ''L'' = Some (Scalar 1)" by simp
  have "\<exists>g e chan sv.
              map_of (currents node') name = Some (g, e) \<and>
              getCurrent cc name storage' = Inr chan \<and>
              map_of (expansion_points node') name = Some sv \<and>
              map_of cond_terms name
                = Some (map_numpy (\<lambda>freq. - computeLinSum chan (e_eq node') freq e sv) freqs)"
    if "name \<in> set names - {''L''}" for name
  proof -
    from that have "name \<in> set (set_minus_L names)" by (simp add: set_set_minus_L)
    with inv have "map_of cond_terms name \<noteq> None"
      and "map_of cond_terms name = term_of cc node' storage' freqs name"
      by blast+
    then show ?thesis
      by (auto simp: term_of_def split: option.splits sum.splits)
  qed
  with L show ?thesis unfolding computeLinSum_def by blast
qed


theorem conductance_terms_witness:
  "calcMembraneConductanceTerms cc_m (node_m None) (Array [0, 1000]) (Some [''L'', ''m'']) None
     = (Inr [(''L'', Scalar 1), (''m'', Array [- 1 / 2, 0])], node_m None, None) \<and>
   ''L'' \<in> set [''L'', ''m''] \<and>
   map_of [(''L'', Scalar 1), (''m'', Array [- 1 / 2, 0 :: complex])] ''L'' = Some (Scalar 1) \<and>
   map_of [(''L'', Scalar 1), (''m'', Array [- 1 / 2, 0 :: complex])] ''m''
     = Some (map_numpy (\<lambda>freq. - (of_real (1 - 0) * computeLinear chan_m 0 freq None
                                   - of_real (computePOpen chan_m 0 None)))
               (Array [0, 1000]))"
proof -
  have call: "calcMembraneConductanceTerms cc_m (node_m None) (Array [0, 1000]) (Some [''L'', ''m'']) None
     = (Inr [(''L'', Scalar 1), (''m'', Array [- 1 / 2, 0])], node_m None, None)"
    by (simp add: calcMembraneConductanceTerms_def set_minus_L_def node_m_def getCurrent_def
        eval_channel_def cc_m_def computeLinSum_def computeLinear_def computeDerivatives_def
        computePOpen_def statevar_args_def chan_m_def)
  have L: "''L'' \<in> set [''L'', ''m'']" by simp
  show ?thesis
    using conductance_terms [OF call L] call
    by (auto simp: node_m_def getCurrent_def eval_channel_def cc_m_def)
qed

subsection \<open>The two permutations\<close>

lemma map_raise_Inr: "(\<And>x. x \<in> set xs \<Longrightarrow> f x = Inr (g x)) \<Longrightarrow> map_raise f xs = Inr (map g xs)"
  by (induction xs) auto

lemma fancy_pick: "in_range (length xs) index_arr \<Longrightarrow> fancy xs index_arr = Inr (pick xs index_arr)"
  unfolding fancy_def pick_def in_range_def
  by (rule map_raise_Inr) (simp add: np_index_def)

lemma length_pick [simp]: "length (pick xs index_arr) = length index_arr"
  by (simp add: pick_def)

lemma pick_map: "in_range (length xs) index_arr \<Longrightarrow> pick (map f xs) index_arr = map f (pick xs index_arr)"
  by (auto simp: pick_def in_range_def)

lemma pick_pick:
  assumes "undoes n p q" "length xs = n"
  shows "pick (pick xs p) q = xs"
proof (rule nth_equalityI)
  show "length (pick (pick xs p) q) = length xs" using assms by (simp add: undoes_def)
next
  fix k assume "k < length (pick (pick xs p) q)"
  then have k: "k < n" using assms by (simp add: undoes_def)
  have qk: "0 \<le> q ! k \<and> q ! k < int n" using assms k by (auto simp: undoes_def in_range_def)
  then have "nat (q ! k) < length p" using assms by (auto simp: undoes_def)
  then show "pick (pick xs p) q ! k = xs ! k"
    using assms k qk by (simp add: pick_def undoes_def)
qed

lemma argsort_props:
  assumes "set p = {0..<int (length p)}"
  shows "undoes (length p) p (argsort p)" and "undoes (length p) (argsort p) p"
proof -
  let ?n = "length p"
  let ?s = "sort_key (\<lambda>i. p ! i) [0..<?n]"
  have card: "card (set p) = ?n" using assms by simp
  then have dp: "distinct p" by (rule card_distinct)
  have sets: "set ?s = {0..<?n}" by simp
  have ds: "distinct ?s" by simp
  have ls: "length ?s = ?n" by simp
  have inj: "inj_on (\<lambda>i. p ! i) {0..<?n}"
    using dp by (auto simp: inj_on_def nth_eq_iff_index_eq)
  have d2: "distinct (map (\<lambda>i. p ! i) ?s)"
    using ds inj sets by (simp add: distinct_map)
  have s2: "sorted (map (\<lambda>i. p ! i) ?s)" by (rule sorted_sort_key)
  have "set (map (\<lambda>i. p ! i) ?s) = (\<lambda>i. p ! i) ` {0..<?n}" using sets by simp
  also have "\<dots> = set p" by (auto simp: set_conv_nth)
  also have "\<dots> = set (map int [0..<?n])"
  proof -
    have "{0..<int ?n} = int ` {0..<?n}"
      by (simp add: image_int_atLeastLessThan)
    then show ?thesis using assms by simp
  qed
  finally have s3: "set (map (\<lambda>i. p ! i) ?s) = set (map int [0..<?n])" .
  have sorted_id: "sorted (map int [0..<?n])" by (simp add: sorted_map sorted_wrt_iff_nth_less)
  have dist_id: "distinct (map int [0..<?n])" by (simp add: distinct_map inj_on_def)
  have eq: "map (\<lambda>i. p ! i) ?s = map int [0..<?n]"
    using s2 d2 s3 sorted_id dist_id by (metis sorted_distinct_set_unique)
  have pq: "p ! (?s ! k) = int k" if "k < ?n" for k
  proof -
    have "map (\<lambda>i. p ! i) ?s ! k = map int [0..<?n] ! k" using eq by simp
    then show ?thesis using that ls by simp
  qed
  have rp: "in_range ?n p" using assms by (auto simp: in_range_def)
  have rq: "in_range ?n (argsort p)" using sets by (auto simp: in_range_def argsort_def)
  show "undoes ?n p (argsort p)"
    using rp rq pq ls by (simp add: undoes_def argsort_def)
  have qp: "argsort p ! nat (p ! k) = int k" if "k < ?n" for k
  proof -
    from that sets have "k \<in> set ?s" by simp
    then obtain j where j: "j < ?n" "?s ! j = k" using ls by (metis in_set_conv_nth)
    with pq have "p ! k = int j" by blast
    then show ?thesis using j ls by (simp add: argsort_def)
  qed
  show "undoes ?n (argsort p) p"
    using rp rq qp ls by (simp add: undoes_def argsort_def)
qed


lemma set_pick: "in_range (length xs) index_arr \<Longrightarrow> set (pick xs index_arr) \<subseteq> set xs"
  by (auto simp: pick_def in_range_def)

lemma permute_permuted:
  assumes "in_range n index_arr" "fits n mat"
  shows "permute index_arr mat = Inr (permuted index_arr mat)"
proof (cases mat)
  case (Vec xs)
  with assms show ?thesis by (simp add: fancy_pick)
next
  case (Mat rows)
  with assms have r: "in_range (length rows) index_arr" by simp
  have "map_raise (\<lambda>row. fancy row index_arr) (pick rows index_arr)
          = Inr (map (\<lambda>row. pick row index_arr) (pick rows index_arr))"
  proof (rule map_raise_Inr)
    fix row assume "row \<in> set (pick rows index_arr)"
    with set_pick [OF r] have "row \<in> set rows" by blast
    with assms Mat show "fancy row index_arr = Inr (pick row index_arr)"
      by (simp add: fancy_pick)
  qed
  with Mat r show ?thesis by (simp add: fancy_pick)
next
  case (Stack mats)
  have a: "map_raise (\<lambda>rows. fancy rows index_arr) mats
             = Inr (map (\<lambda>rows. pick rows index_arr) mats)"
    using assms Stack by (intro map_raise_Inr) (simp add: fancy_pick)
  have b: "map_raise (map_raise (\<lambda>row. fancy row index_arr)) (map (\<lambda>rows. pick rows index_arr) mats)
             = Inr (map (map (\<lambda>row. pick row index_arr)) (map (\<lambda>rows. pick rows index_arr) mats))"
  proof (rule map_raise_Inr)
    fix m assume "m \<in> set (map (\<lambda>rows. pick rows index_arr) mats)"
    then obtain rows where rows: "rows \<in> set mats" "m = pick rows index_arr" by auto
    with assms Stack have r: "in_range (length rows) index_arr" by simp
    show "map_raise (\<lambda>row. fancy row index_arr) m = Inr (map (\<lambda>row. pick row index_arr) m)"
    proof (rule map_raise_Inr)
      fix row assume "row \<in> set m"
      with rows set_pick [OF r] have "row \<in> set rows" by blast
      with assms Stack rows show "fancy row index_arr = Inr (pick row index_arr)"
        by (simp add: fancy_pick)
    qed
  qed
  from Stack a b show ?thesis by (simp add: comp_def)
qed

lemma fits_permuted:
  assumes "in_range n index_arr" "length index_arr = n" "fits n mat"
  shows "fits n (permuted index_arr mat)"
  using assms by (cases mat) auto

lemma pick_pick_rows:
  assumes "undoes n p q" "length rows = n" "\<forall>row \<in> set rows. length row = n"
  shows "map (\<lambda>row. pick row q) (pick (map (\<lambda>row. pick row p) (pick rows p)) q) = rows"
proof -
  from assms have rq: "in_range (length (pick rows p)) q" by (simp add: undoes_def)
  have "map (\<lambda>row. pick row q) (pick (map (\<lambda>row. pick row p) (pick rows p)) q)
          = map (\<lambda>row. pick row q) (map (\<lambda>row. pick row p) (pick (pick rows p) q))"
    by (simp add: pick_map [OF rq])
  also have "\<dots> = map (\<lambda>row. pick (pick row p) q) rows"
    using assms by (simp add: pick_pick comp_def)
  also have "\<dots> = map (\<lambda>row. row) rows"
    using assms by (intro map_cong) (simp_all add: pick_pick)
  finally show ?thesis by simp
qed

lemma permuted_permuted:
  assumes "undoes n p q" "fits n mat"
  shows "permuted q (permuted p mat) = mat"
proof (cases mat)
  case (Vec xs)
  with assms show ?thesis by (simp add: pick_pick)
next
  case (Mat rows)
  with assms show ?thesis by (simp add: pick_pick_rows)
next
  case (Stack mats)
  have "map (\<lambda>rows. map (\<lambda>row. pick row q) (pick rows q))
          (map (\<lambda>rows. map (\<lambda>row. pick row p) (pick rows p)) mats) = map (\<lambda>rows. rows) mats"
    unfolding map_map comp_def
    using assms Stack by (intro map_cong) (simp_all add: pick_pick_rows)
  with Stack show ?thesis by simp
qed

lemma permute_round_trip:
  assumes "undoes n p q" "fits n mat"
  shows "\<exists>mat1. permute p mat = Inr mat1 \<and> permute q mat1 = Inr mat"
proof -
  from assms have rp: "in_range n p" and rq: "in_range n q" and lp: "length p = n"
    by (simp_all add: undoes_def)
  have 1: "permute p mat = Inr (permuted p mat)" using rp assms(2) by (rule permute_permuted)
  have "fits n (permuted p mat)" using rp lp assms(2) by (rule fits_permuted)
  with rq have "permute q (permuted p mat) = Inr (permuted q (permuted p mat))"
    by (rule permute_permuted)
  with 1 permuted_permuted [OF assms] show ?thesis by simp
qed

text \<open>
  A tree without nodes: \<^verbatim>\<open>_permuteToTree\<close> raises for every array.
\<close>

lemma permuteToTree_no_nodes: "permuteToTree [] mat = Inl IndexError"
  by (simp add: permuteToTree_def)

text \<open>
  Claim C3, as amended. For a tree with at least one node, when the \<^verbatim>\<open>loc_ind\<close> of the
  nodes are the numbers from 0 to \<open>N - 1\<close>, each once (\<open>N\<close> the number of nodes),
  \<^verbatim>\<open>_permuteToTree\<close> and \<^verbatim>\<open>_permuteToLocs\<close> undo each other on every array of one, two or
  three dimensions whose permuted axes have length \<open>N\<close>: both return, and the second
  returns the array the first was given, in either order.
\<close>

theorem permutations_mutually_inverse:
  assumes nodes: "ns \<noteq> []"
    and bij: "set (map loc_ind ns) = {0..<int (length ns)}"
    and fit: "fits (length ns) mat"
  shows "(\<exists>mat1. permuteToTree ns mat = Inr mat1 \<and> permuteToLocs ns mat1 = Inr mat) \<and>
         (\<exists>mat2. permuteToLocs ns mat = Inr mat2 \<and> permuteToTree ns mat2 = Inr mat)"
proof -
  let ?p = "map loc_ind ns"
  from bij have "set ?p = {0..<int (length ?p)}" by simp
  from argsort_props [OF this]
  have "undoes (length ns) ?p (argsort ?p)" and "undoes (length ns) (argsort ?p) ?p" by simp_all
  from permute_round_trip [OF this(1) fit] permute_round_trip [OF this(2) fit] nodes
  show ?thesis
    by (simp add: permuteToTree_def permuteToLocs_def permuteToTreeInds_def permuteToLocsInds_def)
qed

theorem permutations_mutually_inverse_witness:
  "two_nodes \<noteq> [] \<and>
   set (map loc_ind two_nodes) = {0..<int (length two_nodes)} \<and>
   fits (length two_nodes) (Mat [[1, 2], [3, 4 :: real]]) \<and>
   permuteToTree two_nodes (Mat [[1, 2], [3, 4 :: real]]) = Inr (Mat [[4, 3], [2, 1]]) \<and>
   permuteToLocs two_nodes (Mat [[4, 3], [2, 1 :: real]]) = Inr (Mat [[1, 2], [3, 4]])"
proof -
  have 0: "two_nodes \<noteq> []" by (simp add: two_nodes_def)
  have 1: "set (map loc_ind two_nodes) = {0..<int (length two_nodes)}"
    by (auto simp: two_nodes_def node_m_def)
  have 2: "fits (length two_nodes) (Mat [[1, 2], [3, 4 :: real]])"
    by (simp add: two_nodes_def)
  have 3: "permuteToTree two_nodes (Mat [[1, 2], [3, 4 :: real]]) = Inr (Mat [[4, 3], [2, 1]])"
    by (simp add: permuteToTree_def permuteToTreeInds_def two_nodes_def node_m_def fancy_def
        np_index_def)
  from permutations_mutually_inverse [OF 0 1 2] 0 1 2 3 show ?thesis by auto
qed

text \<open>
  Claim C3 as stated, for any array, fails: a longer array is cut to the number of nodes.
  With one node, whose \<^verbatim>\<open>loc_ind\<close> is 0, the vector \<^verbatim>\<open>[5, 7]\<close> becomes \<^verbatim>\<open>[5]\<close> and stays so.
  (It fails for a tree without nodes too, by the lemma above.)
\<close>

theorem permute_longer_array_counterexample:
  "set (map loc_ind [node_m None]) = {0..<int (length [node_m None])} \<and>
   permuteToTree [node_m None] (Vec [5, 7 :: real]) = Inr (Vec [5]) \<and>
   permuteToLocs [node_m None] (Vec [5 :: real]) = Inr (Vec [5]) \<and>
   Vec [5 :: real] \<noteq> Vec [5, 7]"
  by (auto simp: permuteToTree_def permuteToTreeInds_def permuteToLocs_def permuteToLocsInds_def
      argsort_def node_m_def fancy_def np_index_def)

subsection \<open>The conductance matrix\<close>

text \<open>
  Each round of the loop of \<^verbatim>\<open>calcConductanceMatrix\<close> adds to the matrix a symmetric
  matrix whose off-diagonal entries are \<open>- g_c\<close> or 0, and the permutation to location
  indexing moves the entry at \<open>(i, j)\<close> and the entry at \<open>(j, i)\<close> together.
\<close>

lemma np_index_less: "np_index n i = Inr a \<Longrightarrow> a < n"
  by (auto simp: np_index_def split: if_splits)

lemma square_entry_add: "square n m \<Longrightarrow> a < n \<Longrightarrow> square n (entry_add m a b x)"
  by (auto simp: square_def entry_add_def dest!: set_update_subset_insert [THEN subsetD])

lemma nth_entry_add:
  assumes "square n m" "r < n" "c < n" "a < n" "b < n"
  shows "entry_add m a b x ! r ! c = m ! r ! c + (if r = a \<and> c = b then x else 0)"
  using assms by (auto simp: square_def entry_add_def nth_list_update)

lemma mat_iadd_Inr:
  assumes "mat_iadd m ii jj rhs = Inr m'" "square n m"
  shows "\<exists>a b x. np_index n ii = Inr a \<and> np_index n jj = Inr b \<and> rhs = Inr x \<and>
           m' = entry_add m a b x"
proof -
  from assms(2) have len: "length m = n" by (simp add: square_def)
  from assms(1) obtain a where a: "np_index (length m) ii = Inr a"
    by (auto simp: mat_iadd_def split: sum.splits)
  with len have "a < n" by (auto dest: np_index_less)
  with assms(2) len have "length (m ! a) = n" by (simp add: square_def)
  with assms(1) a len show ?thesis
    by (auto simp: mat_iadd_def entry_add_def split: sum.splits)
qed

lemma laplacian_signs_add:
  assumes lap: "laplacian_signs n m" and sq: "square n m'"
    and e: "\<And>r c. r < n \<Longrightarrow> c < n \<Longrightarrow> m' ! r ! c = m ! r ! c + d r c"
    and dsym: "\<And>r c. d r c = d c r"
    and dneg: "\<And>r c. r \<noteq> c \<Longrightarrow> d r c \<le> 0"
  shows "laplacian_signs n m'"
  unfolding laplacian_signs_def
proof (intro conjI allI impI)
  show "square n m'" by (rule sq)
next
  fix i j assume ij: "i < n" "j < n"
  from lap ij have "m ! i ! j = m ! j ! i" by (simp add: laplacian_signs_def)
  with e [OF ij] e [OF ij(2) ij(1)] dsym [of i j] show "m' ! i ! j = m' ! j ! i" by simp
next
  fix i j assume ij: "i < n" "j < n" "i \<noteq> j"
  from lap ij have "m ! i ! j \<le> 0" by (simp add: laplacian_signs_def)
  with e [OF ij(1,2)] dneg [OF ij(3)] show "m' ! i ! j \<le> 0" by simp
qed

lemma conductance_node_step:
  assumes step: "calcConductanceMatrix_node cc m node = Inr m'"
    and lap: "laplacian_signs n m" and gc: "0 \<le> g_c node"
  shows "laplacian_signs n m'"
proof -
  from lap have sq: "square n m" by (simp add: laplacian_signs_def)
  from step obtain g1 where
    g1: "mat_iadd m (index node) (index node)
           (case getGTot cc node None None None of Inl err \<Rightarrow> Inl err
            | Inr g_tot \<Rightarrow> Inr (g_tot + g_c node)) = Inr g1"
    by (simp add: calcConductanceMatrix_node_def Let_def split: sum.splits)
  from mat_iadd_Inr [OF g1 sq] obtain a x where
    a: "np_index n (index node) = Inr a" and g1': "g1 = entry_add m a a x" by auto
  from a have an: "a < n" by (rule np_index_less)
  have sq1: "square n g1" unfolding g1' using sq an by (rule square_entry_add)
  have e1: "g1 ! r ! c = m ! r ! c + (if r = a \<and> c = a then x else 0)"
    if "r < n" "c < n" for r c
    unfolding g1' using sq that an an by (rule nth_entry_add)
  show ?thesis
  proof (cases "parent_node node")
    case None
    with step g1 have m': "m' = g1"
      by (simp add: calcConductanceMatrix_node_def Let_def)
    show ?thesis
    proof (rule laplacian_signs_add [OF lap, where d = "\<lambda>r c. if r = a \<and> c = a then x else 0"])
      show "square n m'" using sq1 m' by simp
    next
      fix r c assume "r < n" "c < n"
      then show "m' ! r ! c = m ! r ! c + (if r = a \<and> c = a then x else 0)"
        unfolding m' by (rule e1)
    next
      fix r c :: nat
      show "(if r = a \<and> c = a then x else 0) = (if c = a \<and> r = a then x else 0)"
        by (simp add: conj_commute)
    next
      fix r c :: nat assume "r \<noteq> c"
      then show "(if r = a \<and> c = a then x else 0) \<le> 0" by auto
    qed
  next
    case (Some jj)
    with step g1 obtain g2 g3 where
      g2: "mat_iadd g1 jj jj (Inr (g_c node)) = Inr g2" and
      g3: "mat_iadd g2 (index node) jj (Inr (- g_c node)) = Inr g3" and
      g4: "mat_iadd g3 jj (index node) (Inr (- g_c node)) = Inr m'"
      by (simp add: calcConductanceMatrix_node_def Let_def split: sum.splits)
    from mat_iadd_Inr [OF g2 sq1] obtain b where
      b: "np_index n jj = Inr b" and g2': "g2 = entry_add g1 b b (g_c node)" by auto
    from b have bn: "b < n" by (rule np_index_less)
    have sq2: "square n g2" unfolding g2' using sq1 bn by (rule square_entry_add)
    from mat_iadd_Inr [OF g3 sq2] a b have g3': "g3 = entry_add g2 a b (- g_c node)" by auto
    have sq3: "square n g3" unfolding g3' using sq2 an by (rule square_entry_add)
    from mat_iadd_Inr [OF g4 sq3] a b have g4': "m' = entry_add g3 b a (- g_c node)" by auto
    have sq4: "square n m'" unfolding g4' using sq3 bn by (rule square_entry_add)
    define d where "d r c = (if r = a \<and> c = a then x else 0)
                + (if r = b \<and> c = b then g_c node else 0)
                + (if r = a \<and> c = b then - g_c node else 0)
                + (if r = b \<and> c = a then - g_c node else 0)" for r c :: nat
    show ?thesis
    proof (rule laplacian_signs_add [OF lap sq4, where d = d])
      fix r c assume rc: "r < n" "c < n"
      have "g2 ! r ! c = g1 ! r ! c + (if r = b \<and> c = b then g_c node else 0)"
        unfolding g2' using sq1 rc bn bn by (rule nth_entry_add)
      moreover have "g3 ! r ! c = g2 ! r ! c + (if r = a \<and> c = b then - g_c node else 0)"
        unfolding g3' using sq2 rc an bn by (rule nth_entry_add)
      moreover have "m' ! r ! c = g3 ! r ! c + (if r = b \<and> c = a then - g_c node else 0)"
        unfolding g4' using sq3 rc bn an by (rule nth_entry_add)
      ultimately show "m' ! r ! c = m ! r ! c + d r c"
        using e1 [OF rc] by (simp only: d_def add.assoc)
    next
      fix r c :: nat
      show "d r c = d c r" by (simp add: d_def conj_commute)
    next
      fix r c :: nat assume "r \<noteq> c"
      then show "d r c \<le> 0" using gc by (simp add: d_def)
    qed
  qed
qed

lemma conductance_loop_laplacian:
  assumes "calcConductanceMatrix_loop cc m ns = Inr m'" "laplacian_signs n m"
    "\<forall>node \<in> set ns. 0 \<le> g_c node"
  shows "laplacian_signs n m'"
  using assms
proof (induction ns arbitrary: m)
  case Nil
  then show ?case by simp
next
  case (Cons node ns)
  from Cons.prems(1) obtain g1 where
    1: "calcConductanceMatrix_node cc m node = Inr g1" and
    2: "calcConductanceMatrix_loop cc g1 ns = Inr m'"
    by (auto split: sum.splits)
  from conductance_node_step [OF 1 Cons.prems(2)] Cons.prems(3) have "laplacian_signs n g1" by simp
  from Cons.IH [OF 2 this] Cons.prems(3) show ?case by simp
qed

lemma zeros_laplacian: "laplacian_signs n (replicate n (replicate n 0))"
  by (simp add: laplacian_signs_def square_def)

lemma argsort_range: "in_range (length xs) (argsort xs)"
  by (auto simp: in_range_def argsort_def)

lemma argsort_inj:
  assumes "i < length xs" "j < length xs" "i \<noteq> j"
  shows "nat (argsort xs ! i) \<noteq> nat (argsort xs ! j)"
proof -
  let ?s = "sort_key (\<lambda>i. xs ! i) [0..<length xs]"
  have "distinct ?s" by simp
  moreover have "length ?s = length xs" by simp
  ultimately have "?s ! i \<noteq> ?s ! j" using assms by (simp add: nth_eq_iff_index_eq)
  then show ?thesis using assms by (simp add: argsort_def)
qed

lemma argsort_nth_less:
  assumes "i < length xs"
  shows "nat (argsort xs ! i) < length xs"
proof -
  let ?s = "sort_key (\<lambda>i. xs ! i) [0..<length xs]"
  have "?s ! i \<in> set ?s" using assms by (intro nth_mem) simp
  then show ?thesis using assms by (simp add: argsort_def)
qed

lemma permuted_laplacian:
  assumes lap: "laplacian_signs (length xs) m"
  shows "laplacian_signs (length xs)
           (map (\<lambda>row. pick row (argsort xs)) (pick m (argsort xs)))"
proof -
  let ?n = "length xs" and ?q = "argsort xs"
  have lq: "length ?q = ?n" by (simp add: argsort_def)
  from lap have sq: "square ?n m" by (simp add: laplacian_signs_def)
  have entry: "map (\<lambda>row. pick row ?q) (pick m ?q) ! i ! j = m ! nat (?q ! i) ! nat (?q ! j)"
    if "i < ?n" "j < ?n" for i j
    using that lq by (simp add: pick_def)
  have "square ?n (map (\<lambda>row. pick row ?q) (pick m ?q))"
    using lq by (auto simp: square_def)
  moreover have "map (\<lambda>row. pick row ?q) (pick m ?q) ! i ! j
                   = map (\<lambda>row. pick row ?q) (pick m ?q) ! j ! i" if "i < ?n" "j < ?n" for i j
    using that lap argsort_nth_less [of i xs] argsort_nth_less [of j xs]
    by (simp add: entry laplacian_signs_def)
  moreover have "map (\<lambda>row. pick row ?q) (pick m ?q) ! i ! j \<le> 0"
    if "i < ?n" "j < ?n" "i \<noteq> j" for i j
    using that lap argsort_nth_less [of i xs] argsort_nth_less [of j xs] argsort_inj [of i xs j]
    by (simp add: entry laplacian_signs_def)
  ultimately show ?thesis by (simp add: laplacian_signs_def)
qed

text \<open>
  \<^verbatim>\<open>calcConductanceMatrix\<close> returns when the indexing is \<^verbatim>\<open>'locs'\<close> or \<^verbatim>\<open>'tree'\<close>, each
  node's index and its parent's index are accepted by a matrix of the size of the tree,
  and \<^verbatim>\<open>g_tot\<close> can be computed at each node.
\<close>

lemma np_index_ok: "index_ok n i \<Longrightarrow> \<exists>a. np_index n i = Inr a \<and> a < n"
  by (auto simp: index_ok_def np_index_def)

lemma mat_iadd_returns:
  assumes "square n m" "index_ok n ii" "index_ok n jj"
  shows "\<exists>m'. mat_iadd m ii jj (Inr x) = Inr m' \<and> square n m'"
proof -
  from np_index_ok [OF assms(2)] obtain a where a: "np_index n ii = Inr a" "a < n" by auto
  from np_index_ok [OF assms(3)] obtain b where b: "np_index n jj = Inr b" "b < n" by auto
  from assms(1) a have len: "length m = n" "length (m ! a) = n" by (simp_all add: square_def)
  have "mat_iadd m ii jj (Inr x) = Inr (entry_add m a b x)"
    using a b len by (simp add: mat_iadd_def entry_add_def)
  moreover have "square n (entry_add m a b x)" using assms(1) a(2) by (rule square_entry_add)
  ultimately show ?thesis by blast
qed

lemma conductance_node_returns:
  assumes sq: "square n m" and ii: "index_ok n (index node)"
    and jj: "\<forall>jj. parent_node node = Some jj \<longrightarrow> index_ok n jj"
    and g: "getGTot cc node None None None = Inr g_tot"
  shows "\<exists>m'. calcConductanceMatrix_node cc m node = Inr m' \<and> square n m'"
proof -
  from mat_iadd_returns [OF sq ii ii, of "g_tot + g_c node"] obtain g1 where
    g1: "mat_iadd m (index node) (index node) (Inr (g_tot + g_c node)) = Inr g1" "square n g1"
    by auto
  show ?thesis
  proof (cases "parent_node node")
    case None
    with g g1 show ?thesis by (simp add: calcConductanceMatrix_node_def)
  next
    case (Some j)
    with jj have j: "index_ok n j" by simp
    from mat_iadd_returns [OF g1(2) j j, of "g_c node"] obtain g2 where
      g2: "mat_iadd g1 j j (Inr (g_c node)) = Inr g2" "square n g2" by auto
    from mat_iadd_returns [OF g2(2) ii j, of "- g_c node"] obtain g3 where
      g3: "mat_iadd g2 (index node) j (Inr (- g_c node)) = Inr g3" "square n g3" by auto
    from mat_iadd_returns [OF g3(2) j ii, of "- g_c node"] obtain g4 where
      g4: "mat_iadd g3 j (index node) (Inr (- g_c node)) = Inr g4" "square n g4" by auto
    from Some g g1 g2 g3 g4 show ?thesis by (simp add: calcConductanceMatrix_node_def)
  qed
qed

lemma conductance_loop_returns_square:
  assumes "square n m"
    and "\<forall>node \<in> set ns. index_ok n (index node) \<and>
           (\<forall>jj. parent_node node = Some jj \<longrightarrow> index_ok n jj) \<and>
           (\<exists>g_tot. getGTot cc node None None None = Inr g_tot)"
  shows "\<exists>m'. calcConductanceMatrix_loop cc m ns = Inr m' \<and> square n m'"
  using assms
proof (induction ns arbitrary: m)
  case Nil
  then show ?case by simp
next
  case (Cons node ns)
  from Cons.prems(2) obtain g_tot where g: "getGTot cc node None None None = Inr g_tot" by auto
  from Cons.prems(2) have "index_ok n (index node)"
    and "\<forall>jj. parent_node node = Some jj \<longrightarrow> index_ok n jj" by simp_all
  from conductance_node_returns [OF Cons.prems(1) this g] obtain m1 where
    m1: "calcConductanceMatrix_node cc m node = Inr m1" "square n m1" by auto
  from Cons.prems(2) have rest: "\<forall>node \<in> set ns. index_ok n (index node) \<and>
           (\<forall>jj. parent_node node = Some jj \<longrightarrow> index_ok n jj) \<and>
           (\<exists>g_tot. getGTot cc node None None None = Inr g_tot)" by simp
  from Cons.IH [OF m1(2) rest] m1(1) show ?case by simp
qed

lemma conductance_matrix_returns:
  assumes "indexing = ''locs'' \<or> indexing = ''tree''"
    and "\<forall>node \<in> set ns. index_ok (length ns) (index node) \<and>
           (\<forall>jj. parent_node node = Some jj \<longrightarrow> index_ok (length ns) jj) \<and>
           (\<exists>g_tot. getGTot cc node None None None = Inr g_tot)"
  shows "\<exists>g. calcConductanceMatrix cc ns indexing = Inr g"
proof -
  let ?n = "length ns"
  have "square ?n (replicate ?n (replicate ?n (0 :: real)))" by (simp add: square_def)
  from conductance_loop_returns_square [OF this assms(2)] obtain g_mat where
    g: "calcConductanceMatrix_loop cc (replicate ?n (replicate ?n 0)) ns = Inr g_mat"
    and sq: "square ?n g_mat" by auto
  from sq have "fits ?n (Mat g_mat)" by (simp add: square_def)
  moreover have "in_range ?n (argsort (map loc_ind ns))"
    using argsort_range [of "map loc_ind ns"] by simp
  ultimately have "permute (argsort (map loc_ind ns)) (Mat g_mat)
                     = Inr (permuted (argsort (map loc_ind ns)) (Mat g_mat))"
    by (intro permute_permuted)
  with g assms(1) show ?thesis
    by (auto simp: calcConductanceMatrix_def permuteToLocs_def permuteToLocsInds_def)
qed

text \<open>
  Claim C2. When no node has a negative \<^verbatim>\<open>g_c\<close> and \<^verbatim>\<open>calcConductanceMatrix\<close> returns, in
  either indexing, the matrix it returns is square of the size of the tree, symmetric,
  and each of its off-diagonal entries is at most 0.
\<close>

theorem conductance_matrix_laplacian:
  assumes "calcConductanceMatrix cc ns indexing = Inr g"
    and "\<forall>node \<in> set ns. 0 \<le> g_c node"
  shows "length g = length ns \<and> (\<forall>row \<in> set g. length row = length ns) \<and>
         (\<forall>i < length ns. \<forall>j < length ns. g ! i ! j = g ! j ! i) \<and>
         (\<forall>i < length ns. \<forall>j < length ns. i \<noteq> j \<longrightarrow> g ! i ! j \<le> 0)"
proof -
  let ?n = "length ns"
  from assms(1) obtain g_mat where
    loop: "calcConductanceMatrix_loop cc (replicate ?n (replicate ?n 0)) ns = Inr g_mat"
    by (auto simp: calcConductanceMatrix_def split: sum.splits)
  from conductance_loop_laplacian [OF loop zeros_laplacian assms(2)]
  have lap: "laplacian_signs ?n g_mat" .
  have "laplacian_signs ?n g"
  proof (cases "indexing = ''locs''")
    case True
    let ?q = "argsort (map loc_ind ns)"
    from lap have "fits ?n (Mat g_mat)" by (simp add: laplacian_signs_def square_def)
    moreover have "in_range ?n ?q" using argsort_range [of "map loc_ind ns"] by simp
    ultimately have "permute ?q (Mat g_mat) = Inr (permuted ?q (Mat g_mat))"
      by (intro permute_permuted)
    with assms(1) loop True have "g = map (\<lambda>row. pick row ?q) (pick g_mat ?q)"
      by (simp add: calcConductanceMatrix_def permuteToLocs_def permuteToLocsInds_def)
    with permuted_laplacian [of "map loc_ind ns" g_mat] lap show ?thesis by simp
  next
    case False
    with assms(1) loop have "g = g_mat"
      by (simp add: calcConductanceMatrix_def split: if_splits)
    with lap show ?thesis by simp
  qed
  then show ?thesis by (simp add: laplacian_signs_def square_def)
qed



theorem conductance_matrix_laplacian_witness:
  "calcConductanceMatrix cc_m two_nodes ''locs'' = Inr [[7 / 2, - 2], [- 2, 7 / 2]] \<and>
   0 \<le> g_c (two_nodes ! 0) \<and> 0 \<le> g_c (two_nodes ! 1) \<and>
   [[7 / 2, - 2], [- 2, 7 / 2 :: real]] ! 0 ! 1 = [[7 / 2, - 2], [- 2, 7 / 2]] ! 1 ! 0 \<and>
   [[7 / 2, - 2], [- 2, 7 / 2 :: real]] ! 0 ! 1 \<le> 0"
proof -
  define n0 where "n0 = (node_m None)\<lparr>index := 0, loc_ind := 1\<rparr>"
  define n1 where "n1 = (node_m None)\<lparr>index := 1, parent_node := Some 0, loc_ind := 0, g_c := 2\<rparr>"
  have two: "two_nodes = [n0, n1]" by (simp add: two_nodes_def n0_def n1_def)
  have f0: "index n0 = 0" "parent_node n0 = None" "g_c n0 = 0" "loc_ind n0 = 1"
    "getGTot cc_m n0 None None None = Inr (3 / 2)"
    by (simp_all add: n0_def getGTot_def node_m_def dict_keys_def getCurrent_def eval_channel_def
        cc_m_def computePOpen_def statevar_args_def chan_m_def)
  have f1: "index n1 = 1" "parent_node n1 = Some 0" "g_c n1 = 2" "loc_ind n1 = 0"
    "getGTot cc_m n1 None None None = Inr (3 / 2)"
    by (simp_all add: n1_def getGTot_def node_m_def dict_keys_def getCurrent_def eval_channel_def
        cc_m_def computePOpen_def statevar_args_def chan_m_def)
  have loop: "calcConductanceMatrix_loop cc_m [[0, 0], [0, 0]] [n0, n1]
                = Inr [[7 / 2, - 2], [- 2, 7 / 2]]"
    by (simp add: calcConductanceMatrix_node_def f0 f1 mat_iadd_def np_index_def)
  have perm: "permuteToLocs [n0, n1] (Mat [[7 / 2, - 2], [- 2, 7 / 2 :: real]])
                = Inr (Mat [[7 / 2, - 2], [- 2, 7 / 2]])"
    by (simp add: permuteToLocs_def permuteToLocsInds_def argsort_def fancy_def np_index_def
        f0 f1 upt_rec)
  have call: "calcConductanceMatrix cc_m two_nodes ''locs'' = Inr [[7 / 2, - 2], [- 2, 7 / 2]]"
    by (simp add: calcConductanceMatrix_def two loop perm numeral_2_eq_2
        del: calcConductanceMatrix_loop.simps)
  have gc: "\<forall>node \<in> set two_nodes. 0 \<le> g_c node"
    by (simp add: two f0 f1)
  from conductance_matrix_laplacian [OF call gc] call show ?thesis
    by (simp add: two f0 f1)
qed

subsection \<open>Storing a pair in two halves\<close>




lemma ncols_scaled [simp]: "ncols (scaled k A) = ncols A"
  by (simp add: ncols_def scaled_def split: list.splits)

lemma ncols_twice [simp]: "ncols (A @ A) = ncols A"
  by (simp add: ncols_def split: list.splits)

lemma length_scaled [simp]: "length (scaled k A) = length A"
  by (simp add: scaled_def)

lemma scaled_append: "scaled k (A @ B) = scaled k A @ scaled k B"
  by (simp add: scaled_def)






text \<open>
  Stores into the idle accumulator, and the problems that \<^verbatim>\<open>runFit\<close> assembles from one
  stored pair and from two. When both stores pass the same two arrays, \<^verbatim>\<open>runFit\<close> scales
  these arrays twice.
\<close>

lemma tagged_lists [simp]:
  "mats_feature (tagged cap kw) = []" "vecs_target (tagged cap kw) = []"
  "weights_fit (tagged cap kw) = []"
  by (simp_all add: tagged_def store_family_def idle_fit_data_def split: option.splits)

























subsection \<open>The convolution\<close>

text \<open>
  The code multiplies the inputs by the entries of \<^verbatim>\<open>phimat\<close> before the loop, so its
  \<^verbatim>\<open>convvar\<close> is the state in the eigenbasis times these entries, at every step.
\<close>

lemma convvar_eigen_state:
  "convvar eig dt inputs t l n k c = phimat eig l n * eigen_state eig dt inputs t n k c"
  by (induction t) (simp_all add: inputs_tlnkc_def algebra_simps)

text \<open>
  \<^verbatim>\<open>_calcConvolution\<close> returns when the inputs have one site for each node and at least one
  time step.
\<close>

lemma convolution_returns:
  assumes "shape3 inputs = (n_nodes eig, n_c, n_t)" "0 < n_t"
  shows "\<exists>conv. calcConvolution eig dt inputs = Inr conv \<and>
           shape4 conv = (n_nodes eig, n_nodes eig, n_c, n_t)"
  using assms by (simp add: calcConvolution_def)


text \<open>
  Claim C6. For a step size and rates that are not zero, and inputs for which
  \<^verbatim>\<open>_calcConvolution\<close> returns: the entry of the result at node \<open>l\<close>, input site \<open>k\<close>,
  channel \<open>c\<close> and time step \<open>t\<close> is the projection through \<^verbatim>\<open>phimat\<close> of the state in the
  eigenbasis at step \<open>t\<close>; this state advances by
  \<open>state \<leftarrow> p0 * state + p1 * input[t + 1] + p2 * input[t]\<close>, with the inputs seen through
  \<^verbatim>\<open>phimat_inv\<close>; and \<open>p0 = exp (alpha * dt)\<close>.
\<close>

theorem convolution_is_projected_state:
  assumes "calcConvolution eig dt inputs = Inr conv"
    and "dt \<noteq> 0" and "\<forall>n < n_nodes eig. alphas eig n \<noteq> 0"
  shows "entry4 conv l k c t = project eig (\<lambda>n. eigen_state eig dt inputs t n k c) l \<and>
         eigen_state eig dt inputs (Suc t) n k c
           = p0 eig dt n * eigen_state eig dt inputs t n k c
             + p1 eig dt n * (phimat_inv eig n k * of_real (entry3 inputs k c (Suc t)))
             + p2 eig dt n * (phimat_inv eig n k * of_real (entry3 inputs k c t)) \<and>
         p0 eig dt n = exp (alphas eig n * of_real dt)"
proof -
  from assms(1) have "entry4 conv l k c t = Re (\<Sum>n < n_nodes eig. convvar eig dt inputs t l n k c)"
    by (auto simp: calcConvolution_def split: prod.splits if_splits)
  then show ?thesis
    by (simp add: project_def convvar_eigen_state inputs_nkct_def p0_def)
qed

theorem convolution_is_projected_state_witness:
  "calcConvolution eig_one 1 step_input = Inr conv_one \<and>
   alphas eig_one 0 \<noteq> 0 \<and>
   entry4 conv_one 0 0 0 1 = project eig_one (\<lambda>n. eigen_state eig_one 1 step_input 1 n 0 0) 0 \<and>
   entry4 conv_one 0 0 0 1 = 1"
proof -
  have call: "calcConvolution eig_one 1 step_input = Inr conv_one"
    by (simp add: calcConvolution_def step_input_def conv_one_def eig_one_def)
  have dt: "(1 :: real) \<noteq> 0" by simp
  have al: "\<forall>n < n_nodes eig_one. alphas eig_one n \<noteq> 0" by (simp add: eig_one_def)
  have val: "project eig_one (\<lambda>n. eigen_state eig_one 1 step_input 1 n 0 0) 0 = 1"
    by (simp add: project_def eig_one_def p_first_def p0_def p1_def p2_def inputs_nkct_def
        step_input_def field_simps)
  from convolution_is_projected_state [OF call dt al, of 0 0 0 1] call val show ?thesis
    by (simp add: eig_one_def)
qed

end
